theory Spec2Isabelle
  imports Main
begin

section \<open>JavaScript values as the two benchmark scripts see them\<close>

text \<open>
  Both \<^verbatim>\<open>callOasisAgent\<close> functions (the MT-Bench one in
  \<^verbatim>\<open>src/scripts/benchmark-mtbench.ts\<close> and the tau-bench one in
  \<^verbatim>\<open>src/unnamed/part_000\<close>) work on values returned by \<^verbatim>\<open>JSON.parse\<close>, typed
  \<^verbatim>\<open>any\<close>. The model therefore keeps the whole JSON value space instead of a typed event
  record, and writes out what property access, truthiness and string coercion do on it.

  Conventions.
  \<^item> A JavaScript string is a \<open>string\<close>; a \<open>char\<close> stands for a code unit below 256.
  \<^item> A JSON number is kept as the text \<^verbatim>\<open>Number.prototype.toString\<close> gives for it
    (\<open>''0''\<close>, \<open>''-1.5''\<close>, \<open>''1e+21''\<close>). The scripts only test numbers for truthiness
    and append them to strings, and both are functions of that text: the only falsy
    number \<^verbatim>\<open>JSON.parse\<close> can return is zero, printed \<open>''0''\<close>.
  \<^item> \<^verbatim>\<open>undefined\<close> is \<open>None\<close> of \<open>json option\<close>.
  \<^item> An object is the association list of its own properties; \<open>map_of\<close> reads it.
\<close>

datatype json =
    JNull
  | JBool bool
  | JNum string
  | JStr string
  | JArr "json list"
  | JObj "(string \<times> json) list"

datatype exn = TypeError | SyntaxError

text \<open>Truthiness (\<^verbatim>\<open>if (x)\<close>, \<^verbatim>\<open>a && b\<close>, \<^verbatim>\<open>a || b\<close>).\<close>

fun truthy :: "json \<Rightarrow> bool" where
  "truthy JNull = False"
| "truthy (JBool b) = b"
| "truthy (JNum r) = (r \<noteq> ''0'')"
| "truthy (JStr s) = (s \<noteq> [])"
| "truthy (JArr xs) = True"
| "truthy (JObj kvs) = True"

definition truthy_opt :: "json option \<Rightarrow> bool" where
  "truthy_opt v = (case v of None \<Rightarrow> False | Some j \<Rightarrow> truthy j)"

text \<open>
  Reading a named property. The names the scripts read (\<^verbatim>\<open>inference_results\<close>,
  \<^verbatim>\<open>output\<close>, \<^verbatim>\<open>name\<close>, \<^verbatim>\<open>dataAsMap\<close>, \<^verbatim>\<open>content\<close>, \<^verbatim>\<open>type\<close>, \<^verbatim>\<open>delta\<close>,
  \<^verbatim>\<open>toolCallName\<close>) are defined on no prototype of a JSON value, so only an object's
  own properties answer; \<open>member\<close> is meant for these names only.
  \<open>get_prop\<close> is \<^verbatim>\<open>v.k\<close> (a TypeError on \<^verbatim>\<open>null\<close>), \<open>opt_prop\<close> is \<^verbatim>\<open>v?.k\<close>.
\<close>

fun member :: "json \<Rightarrow> string \<Rightarrow> json option" where
  "member (JObj kvs) k = map_of kvs k"
| "member _ k = None"

definition get_prop :: "json \<Rightarrow> string \<Rightarrow> exn + json option" where
  "get_prop v k = (if v = JNull then Inl TypeError else Inr (member v k))"

definition opt_prop :: "json option \<Rightarrow> string \<Rightarrow> json option" where
  "opt_prop v k = (case v of None \<Rightarrow> None | Some j \<Rightarrow> member j k)"

text \<open>
  \<^verbatim>\<open>v?.[0]\<close>: the first element of an array, the property \<^verbatim>\<open>"0"\<close> of an object, the
  first code unit of a string; \<^verbatim>\<open>undefined\<close> on anything else, \<^verbatim>\<open>null\<close> included.
\<close>

fun elem0 :: "json \<Rightarrow> json option" where
  "elem0 (JArr xs) = (case xs of [] \<Rightarrow> None | x # _ \<Rightarrow> Some x)"
| "elem0 (JObj kvs) = map_of kvs ''0''"
| "elem0 (JStr s) = (case s of [] \<Rightarrow> None | c # _ \<Rightarrow> Some (JStr [c]))"
| "elem0 _ = None"

definition opt_index0 :: "json option \<Rightarrow> json option" where
  "opt_index0 v = (case v of None \<Rightarrow> None | Some j \<Rightarrow> elem0 j)"

text \<open>
  String coercion (\<^verbatim>\<open>ToString\<close>, reached by \<^verbatim>\<open>s += v\<close> and by \<^verbatim>\<open>JSON.parse(v)\<close>).
  An array joins the coercions of its elements with commas, \<^verbatim>\<open>null\<close> elements giving
  the empty text. An object answers \<^verbatim>\<open>[object Object]\<close> through
  \<^verbatim>\<open>Object.prototype.toString\<close>, unless it has an own property \<^verbatim>\<open>toString\<close>: a JSON
  value is never callable, \<^verbatim>\<open>valueOf\<close> gives no primitive either, and the coercion
  throws a TypeError (\<open>None\<close>).
\<close>

fun js_to_string :: "json \<Rightarrow> string option"
  and js_join :: "json list \<Rightarrow> string option" where
  "js_to_string JNull = Some ''null''"
| "js_to_string (JBool b) = Some (if b then ''true'' else ''false'')"
| "js_to_string (JNum r) = Some r"
| "js_to_string (JStr s) = Some s"
| "js_to_string (JArr xs) = js_join xs"
| "js_to_string (JObj kvs) =
     (if ''toString'' \<in> fst ` set kvs then None else Some ''[object Object]'')"
| "js_join [] = Some []"
| "js_join (x # xs) =
     (case (if x = JNull then Some [] else js_to_string x) of
        None \<Rightarrow> None
      | Some s \<Rightarrow>
          (if xs = [] then Some s
           else (case js_join xs of None \<Rightarrow> None | Some r \<Rightarrow> Some (s @ '','' @ r))))"

text \<open>
  \<^verbatim>\<open>JSON.parse\<close> is the platform's. It is a parameter \<open>parse\<close> of everything below,
  \<open>None\<close> standing for its SyntaxError. \<open>JSON_parse\<close> is the call on an arbitrary
  value, which is coerced to a string first.
\<close>

definition JSON_parse :: "(string \<Rightarrow> json option) \<Rightarrow> json \<Rightarrow> exn + json" where
  "JSON_parse parse v =
     (case js_to_string v of
        None \<Rightarrow> Inl TypeError
      | Some s \<Rightarrow> (case parse s of None \<Rightarrow> Inl SyntaxError | Some j \<Rightarrow> Inr j))"

text \<open>
  \<^verbatim>\<open>outputs.find((o) => o.name === 'response')\<close>: the first element whose \<^verbatim>\<open>name\<close>
  is the string \<^verbatim>\<open>response\<close>. A \<^verbatim>\<open>null\<close> element met before a match throws inside
  the callback; a value that is not an array has no callable \<^verbatim>\<open>find\<close>.
\<close>

fun find_response :: "json list \<Rightarrow> exn + json option" where
  "find_response [] = Inr None"
| "find_response (x # xs) =
     (case get_prop x ''name'' of
        Inl e \<Rightarrow> Inl e
      | Inr n \<Rightarrow> if n = Some (JStr ''response'') then Inr (Some x) else find_response xs)"

definition outputs_find :: "json \<Rightarrow> exn + json option" where
  "outputs_find outputs = (case outputs of JArr xs \<Rightarrow> find_response xs | _ \<Rightarrow> Inl TypeError)"

text \<open>\<^verbatim>\<open>chunk.split('\n')\<close>, \<^verbatim>\<open>line.startsWith('data: ')\<close>, \<^verbatim>\<open>line.slice(6)\<close>.\<close>

fun split_nl :: "string \<Rightarrow> string list" where
  "split_nl [] = [[]]"
| "split_nl (c # cs) =
     (if c = CHR 0x0A then [] # split_nl cs
      else (case split_nl cs of [] \<Rightarrow> [[c]] | l # ls \<Rightarrow> (c # l) # ls))"

definition startsWith_data :: "string \<Rightarrow> bool" where
  "startsWith_data line = (take 6 line = ''data: '')"

definition slice6 :: "string \<Rightarrow> string" where
  "slice6 line = drop 6 line"

section \<open>The stream reader and the event fold of the two scripts\<close>

text \<open>
  An exception thrown inside the \<^verbatim>\<open>try\<close> block of a frame is caught by the empty
  \<^verbatim>\<open>catch\<close> of the same frame. The accumulators are local variables mutated in place,
  so the \<^verbatim>\<open>catch\<close> sees them as they were at the throw: an outcome carries the
  accumulators in both cases.
\<close>

datatype 'a outcome = Completed 'a | Threw exn 'a

fun state_of :: "'a outcome \<Rightarrow> 'a" where
  "state_of (Completed st) = st"
| "state_of (Threw e st) = st"

text \<open>
  The accumulators: \<^verbatim>\<open>fullResponse\<close> and \<^verbatim>\<open>currentMessage\<close> in both scripts, and
  \<^verbatim>\<open>toolsUsed\<close> in the tau-bench one. \<^verbatim>\<open>toolsUsed\<close> is declared \<^verbatim>\<open>string[]\<close>, but
  \<^verbatim>\<open>push\<close> stores the value of \<^verbatim>\<open>toolCallName\<close> as it is, whatever its type.
\<close>

record acc =
  fullResponse :: string
  currentMessage :: string

record tau_acc = acc +
  toolsUsed :: "json list"

text \<open>
  Unwrapping a frame (MT-Bench lines 137-145, tau-bench lines 344-351; the two texts are
  the same): \<^verbatim>\<open>JSON.parse(line.slice(6))\<close>, the guard on
  \<^verbatim>\<open>data.inference_results?.[0]?.output\<close>, \<^verbatim>\<open>find\<close>, the guard on
  \<^verbatim>\<open>responseOutput?.dataAsMap?.content\<close> and \<^verbatim>\<open>JSON.parse\<close> of the content. No
  accumulator is touched on the way. The result is the decoded \<^verbatim>\<open>aguiEvent\<close>,
  \<open>Inr None\<close> when a guard is false, or the exception thrown.
\<close>

definition unwrap_frame :: "(string \<Rightarrow> json option) \<Rightarrow> string \<Rightarrow> exn + json option" where
  "unwrap_frame parse payload =
     (case parse payload of
        None \<Rightarrow> Inl SyntaxError
      | Some data \<Rightarrow>
          (case get_prop data ''inference_results'' of
             Inl e \<Rightarrow> Inl e
           | Inr ir \<Rightarrow>
               (case opt_prop (opt_index0 ir) ''output'' of
                  None \<Rightarrow> Inr None
                | Some outputs \<Rightarrow>
                    if \<not> truthy outputs then Inr None
                    else
                      (case outputs_find outputs of
                         Inl e \<Rightarrow> Inl e
                       | Inr responseOutput \<Rightarrow>
                           (case opt_prop (opt_prop responseOutput ''dataAsMap'') ''content'' of
                              None \<Rightarrow> Inr None
                            | Some content \<Rightarrow>
                                if \<not> truthy content then Inr None
                                else
                                  (case JSON_parse parse content of
                                     Inl e \<Rightarrow> Inl e
                                   | Inr aguiEvent \<Rightarrow> Inr (Some aguiEvent)))))))"

text \<open>
  Collecting text (MT-Bench lines 148-153, tau-bench lines 359-364, the same text again).
  \<^verbatim>\<open>aguiEvent.type\<close> throws on \<^verbatim>\<open>null\<close>; once it has not, \<^verbatim>\<open>aguiEvent.delta\<close> is a
  plain read. \<^verbatim>\<open>currentMessage += aguiEvent.delta\<close> coerces the delta to a string
  and assigns only if the coercion did not throw.
\<close>

definition collect_text :: "'a acc_scheme \<Rightarrow> json \<Rightarrow> 'a acc_scheme outcome" where
  "collect_text st aguiEvent =
     (case get_prop aguiEvent ''type'' of
        Inl e \<Rightarrow> Threw e st
      | Inr ty \<Rightarrow>
          if ty = Some (JStr ''TEXT_MESSAGE_CONTENT'') \<and> truthy_opt (member aguiEvent ''delta'') then
            (case member aguiEvent ''delta'' of
               None \<Rightarrow> Completed st
             | Some delta \<Rightarrow>
                 (case js_to_string delta of
                    None \<Rightarrow> Threw TypeError st
                  | Some s \<Rightarrow> Completed (st\<lparr>currentMessage := currentMessage st @ s\<rparr>)))
          else if ty = Some (JStr ''TEXT_MESSAGE_END'') then
            Completed (st\<lparr>fullResponse := fullResponse st @ currentMessage st,
                           currentMessage := []\<rparr>)
          else Completed st)"

text \<open>The MT-Bench script does nothing else with an event.\<close>

definition on_event_mt :: "acc \<Rightarrow> json \<Rightarrow> acc outcome" where
  "on_event_mt st aguiEvent = collect_text st aguiEvent"

text \<open>
  The tau-bench script tracks tool usage first (lines 353-356), then collects text.
\<close>

definition track_tool :: "tau_acc \<Rightarrow> json \<Rightarrow> tau_acc outcome" where
  "track_tool st aguiEvent =
     (case get_prop aguiEvent ''type'' of
        Inl e \<Rightarrow> Threw e st
      | Inr ty \<Rightarrow>
          if ty = Some (JStr ''TOOL_CALL_START'') \<and> truthy_opt (member aguiEvent ''toolCallName'') then
            (case member aguiEvent ''toolCallName'' of
               None \<Rightarrow> Completed st
             | Some toolCallName \<Rightarrow> Completed (st\<lparr>toolsUsed := toolsUsed st @ [toolCallName]\<rparr>))
          else Completed st)"

definition on_event_tau :: "tau_acc \<Rightarrow> json \<Rightarrow> tau_acc outcome" where
  "on_event_tau st aguiEvent =
     (case track_tool st aguiEvent of
        Threw e st' \<Rightarrow> Threw e st'
      | Completed st' \<Rightarrow> collect_text st' aguiEvent)"

text \<open>
  One line of a chunk: the body of \<^verbatim>\<open>for (const line of lines)\<close>, with its
  \<^verbatim>\<open>try\<close>/\<^verbatim>\<open>catch\<close>. \<open>try_frame\<close> is the \<^verbatim>\<open>try\<close> block, given the script's event
  handler.
\<close>

definition try_frame ::
  "('s \<Rightarrow> json \<Rightarrow> 's outcome) \<Rightarrow> (string \<Rightarrow> json option) \<Rightarrow> 's \<Rightarrow> string \<Rightarrow> 's outcome" where
  "try_frame on_event parse st payload =
     (case unwrap_frame parse payload of
        Inl e \<Rightarrow> Threw e st
      | Inr None \<Rightarrow> Completed st
      | Inr (Some aguiEvent) \<Rightarrow> on_event st aguiEvent)"

definition process_line ::
  "('s \<Rightarrow> json \<Rightarrow> 's outcome) \<Rightarrow> (string \<Rightarrow> json option) \<Rightarrow> 's \<Rightarrow> string \<Rightarrow> 's" where
  "process_line on_event parse st line =
     (if startsWith_data line then state_of (try_frame on_event parse st (slice6 line)) else st)"

text \<open>
  The errors a call can throw: the two scripts' own (a response that is not ok, whose
  error text could or could not be read; a response without a body) and the rejection
  of a \<^verbatim>\<open>reader.read()\<close>, which is the transport's.
\<close>

datatype error =
    AgentError nat string
  | TextRejected
  | NoResponseBody
  | AgentRequestFailed nat
  | ReadRejected

text \<open>
  The read loop. The body of the response is the list of what the successive calls of
  \<^verbatim>\<open>reader.read()\<close> do: each delivers a chunk (\<open>Value\<close>) or rejects (\<open>Rejects\<close>), and
  at the end of the list the read reports \<^verbatim>\<open>done\<close>. The loop stands in
  \<^verbatim>\<open>try { ... } finally { reader.releaseLock() }\<close> with no \<^verbatim>\<open>catch\<close>: a rejected read
  leaves the loop and the function as an exception, and the accumulators, which are
  local, are lost with it. \<^verbatim>\<open>TextDecoder\<close> is the platform's: \<open>decode\<close>
  is \<^verbatim>\<open>decoder.decode(value, { stream: true })\<close>, a function of the decoder's state
  \<open>d\<close> (the bytes of an unfinished character) and the chunk. Each chunk's text is
  split and its lines are processed on their own: nothing of a chunk's last line is
  kept for the next chunk.
\<close>

datatype 'b read = Value 'b | Rejects

fun read_loop ::
  "('s \<Rightarrow> json \<Rightarrow> 's outcome) \<Rightarrow> (string \<Rightarrow> json option) \<Rightarrow> ('d \<Rightarrow> 'b \<Rightarrow> string \<times> 'd)
    \<Rightarrow> 'd \<Rightarrow> 's \<Rightarrow> 'b read list \<Rightarrow> error + 's" where
  "read_loop on_event parse decode d st [] = Inr st"
| "read_loop on_event parse decode d st (Rejects # rest) = Inl ReadRejected"
| "read_loop on_event parse decode d st (Value v # rest) =
     (case decode d v of
        (chunk, d') \<Rightarrow>
          read_loop on_event parse decode d'
            (foldl (process_line on_event parse) st (split_nl chunk)) rest)"

text \<open>
  \<^verbatim>\<open>String.prototype.trim\<close> removes white space and line terminators from both ends;
  below 256 these are the code units 9 to 13, 32 and 160.
\<close>

definition js_space :: "char \<Rightarrow> bool" where
  "js_space c = (c \<in> {CHR 0x09, CHR 0x0A, CHR 0x0B, CHR 0x0C, CHR 0x0D, CHR 0x20, CHR 0xA0})"

definition js_trim :: "string \<Rightarrow> string" where
  "js_trim s = rev (dropWhile js_space (rev (dropWhile js_space s)))"

text \<open>
  The call, from the \<^verbatim>\<open>response\<close> that \<^verbatim>\<open>fetch\<close> resolved to: \<open>callOasisAgent_mt\<close>
  is \<^verbatim>\<open>callOasisAgent\<close> of the MT-Bench script (lines 111-176), \<open>callOasisAgent_tau\<close> the
  one of the tau-bench script (lines 323-378). Signing and
  \<^verbatim>\<open>fetch\<close> are external; \<open>t0\<close> and \<open>t1\<close> are the two readings of \<^verbatim>\<open>Date.now()\<close>.
  \<open>finish_mt\<close> is the end of the MT-Bench script (lines 166-174): the remaining
  message is added, the text is trimmed, and an empty text is replaced.
  \<open>mt_init\<close> and \<open>tau_init\<close> are the accumulators as declared, empty.
  \<open>text_of\<close> is what \<^verbatim>\<open>response.text()\<close> resolves to (\<open>None\<close>: it rejects), \<open>body\<close> the
  reads of \<^verbatim>\<open>response.body\<close> (\<open>None\<close>: the response has no body).
\<close>

record 'b http_response =
  ok :: bool
  status :: nat
  text_of :: "string option"
  body :: "'b read list option"

record mt_result =
  response :: string
  latencyMs :: int

record tau_result = mt_result +
  toolsUsed_of :: "json list"

definition mt_init :: acc where
  "mt_init = \<lparr>fullResponse = [], currentMessage = []\<rparr>"

definition tau_init :: tau_acc where
  "tau_init = \<lparr>fullResponse = [], currentMessage = [], toolsUsed = []\<rparr>"

definition finish_mt :: "acc \<Rightarrow> string" where
  "finish_mt st =
     (let full = (if currentMessage st \<noteq> [] then fullResponse st @ currentMessage st
                  else fullResponse st)
      in if js_trim full \<noteq> [] then js_trim full else ''No response received'')"

definition callOasisAgent_mt ::
  "(string \<Rightarrow> json option) \<Rightarrow> ('d \<Rightarrow> 'b \<Rightarrow> string \<times> 'd) \<Rightarrow> 'd \<Rightarrow> int \<Rightarrow> int
    \<Rightarrow> 'b http_response \<Rightarrow> error + mt_result" where
  "callOasisAgent_mt parse decode d0 t0 t1 resp =
     (if \<not> ok resp then
        (case text_of resp of
           None \<Rightarrow> Inl TextRejected
         | Some errorText \<Rightarrow> Inl (AgentError (status resp) errorText))
      else
        (case body resp of
           None \<Rightarrow> Inl NoResponseBody
         | Some reads \<Rightarrow>
             (case read_loop on_event_mt parse decode d0 mt_init reads of
                Inl e \<Rightarrow> Inl e
              | Inr st \<Rightarrow> Inr \<lparr>response = finish_mt st, latencyMs = t1 - t0\<rparr>)))"

definition callOasisAgent_tau ::
  "(string \<Rightarrow> json option) \<Rightarrow> ('d \<Rightarrow> 'b \<Rightarrow> string \<times> 'd) \<Rightarrow> 'd \<Rightarrow> int \<Rightarrow> int
    \<Rightarrow> 'b http_response \<Rightarrow> error + tau_result" where
  "callOasisAgent_tau parse decode d0 t0 t1 resp =
     (if \<not> ok resp \<or> body resp = None then Inl (AgentRequestFailed (status resp))
      else
        (case body resp of
           None \<Rightarrow> Inl (AgentRequestFailed (status resp))
         | Some reads \<Rightarrow>
             (case read_loop on_event_tau parse decode d0 tau_init reads of
                Inl e \<Rightarrow> Inl e
              | Inr st \<Rightarrow> Inr \<lparr>response = fullResponse st, latencyMs = t1 - t0,
                                 toolsUsed_of = toolsUsed st\<rparr>)))"

text \<open>
  What a caller reads of a result apart from the latency: the response text, and with
  it the tool list of the tau-bench call.
\<close>

definition response_of :: "error + 'a mt_result_scheme \<Rightarrow> error + string" where
  "response_of r = map_sum id response r"

definition text_and_tools :: "error + tau_result \<Rightarrow> error + string \<times> json list" where
  "text_and_tools r = map_sum id (\<lambda>x. (response x, toolsUsed_of x)) r"

section \<open>The decoded event sequence\<close>

text \<open>
  The event a line carries, if it carries one: the line starts with \<^verbatim>\<open>data: \<close> and
  its unwrapping reaches the \<^verbatim>\<open>aguiEvent\<close>. The events of a stream are those of the
  lines of its chunks, in order; \<open>run_events\<close> is what the loop does to the accumulators
  over a sequence of events.
\<close>

definition line_event :: "(string \<Rightarrow> json option) \<Rightarrow> string \<Rightarrow> json option" where
  "line_event parse line =
     (if startsWith_data line then
        (case unwrap_frame parse (slice6 line) of Inr (Some aguiEvent) \<Rightarrow> Some aguiEvent | _ \<Rightarrow> None)
      else None)"

fun stream_events ::
  "(string \<Rightarrow> json option) \<Rightarrow> ('d \<Rightarrow> 'b \<Rightarrow> string \<times> 'd) \<Rightarrow> 'd \<Rightarrow> 'b list \<Rightarrow> json list" where
  "stream_events parse decode d [] = []"
| "stream_events parse decode d (v # rest) =
     (case decode d v of
        (chunk, d') \<Rightarrow>
          List.map_filter (line_event parse) (split_nl chunk) @ stream_events parse decode d' rest)"

definition run_events :: "('s \<Rightarrow> json \<Rightarrow> 's outcome) \<Rightarrow> 's \<Rightarrow> json list \<Rightarrow> 's" where
  "run_events on_event st evs = foldl (\<lambda>s ev. state_of (on_event s ev)) st evs"

text \<open>
  The vocabulary of the claims. An event is of a type when its \<^verbatim>\<open>type\<close> property is
  that string. \<open>string_delta\<close> is the typing of \<^verbatim>\<open>AGUIEvent\<close>: a delta, where there is
  one, is a string. \<open>deltas\<close> is the in-order concatenation of the deltas of the
  content events of a sequence; \<open>upto_last_end\<close> is the sequence up to its last
  \<^verbatim>\<open>TEXT_MESSAGE_END\<close> (the completed spans), \<open>after_last_end\<close> the rest (the span left
  open).
\<close>

definition has_type :: "string \<Rightarrow> json \<Rightarrow> bool" where
  "has_type t ev = (member ev ''type'' = Some (JStr t))"

definition is_content :: "json \<Rightarrow> bool" where
  "is_content ev = has_type ''TEXT_MESSAGE_CONTENT'' ev"

definition is_end :: "json \<Rightarrow> bool" where
  "is_end ev = has_type ''TEXT_MESSAGE_END'' ev"

definition is_tool_start :: "json \<Rightarrow> bool" where
  "is_tool_start ev = has_type ''TOOL_CALL_START'' ev"

definition string_delta :: "json \<Rightarrow> bool" where
  "string_delta ev = (case member ev ''delta'' of None \<Rightarrow> True | Some (JStr s) \<Rightarrow> True | Some _ \<Rightarrow> False)"

definition delta_of :: "json \<Rightarrow> string" where
  "delta_of ev = (case member ev ''delta'' of Some (JStr s) \<Rightarrow> s | _ \<Rightarrow> [])"

definition deltas :: "json list \<Rightarrow> string" where
  "deltas evs = concat (map delta_of (filter is_content evs))"

definition upto_last_end :: "json list \<Rightarrow> json list" where
  "upto_last_end evs = rev (dropWhile (\<lambda>ev. \<not> is_end ev) (rev evs))"

definition after_last_end :: "json list \<Rightarrow> json list" where
  "after_last_end evs = rev (takeWhile (\<lambda>ev. \<not> is_end ev) (rev evs))"

text \<open>The name a tool-call start carries, as the script tests it: a truthy \<^verbatim>\<open>toolCallName\<close>.\<close>

definition tool_name :: "json \<Rightarrow> json option" where
  "tool_name ev =
     (case member ev ''toolCallName'' of
        None \<Rightarrow> None
      | Some n \<Rightarrow> if is_tool_start ev \<and> truthy n then Some n else None)"

text \<open>
  The failures of a frame, in the words of the specification: the text after the
  prefix is not JSON; \<^verbatim>\<open>inference_results[0].output\<close> is missing or is no array; no
  element of the array is named \<^verbatim>\<open>response\<close>; the content of the first element so
  named is absent; the content is not JSON.
\<close>

definition named_response :: "json \<Rightarrow> bool" where
  "named_response x = (member x ''name'' = Some (JStr ''response''))"

definition frame_fails :: "(string \<Rightarrow> json option) \<Rightarrow> string \<Rightarrow> bool" where
  "frame_fails parse payload =
     (case parse payload of
        None \<Rightarrow> True
      | Some data \<Rightarrow>
          (case opt_prop (opt_index0 (member data ''inference_results'')) ''output'' of
             Some (JArr outputs) \<Rightarrow>
               (case find named_response outputs of
                  None \<Rightarrow> True
                | Some responseOutput \<Rightarrow>
                    (case opt_prop (member responseOutput ''dataAsMap'') ''content'' of
                       None \<Rightarrow> True
                     | Some content \<Rightarrow> isl (JSON_parse parse content)))
           | _ \<Rightarrow> True))"

section \<open>The connector: live run and replay\<close>

text \<open>
  \<^verbatim>\<open>OllyConnector.execute\<close> (lines 91-125) creates a converter and two empty arrays and
  hands \<^verbatim>\<open>consumeSSEStream\<close> a callback that pushes the event on \<^verbatim>\<open>rawEvents\<close> and
  the steps \<^verbatim>\<open>converter.processEvent(event)\<close> returns on \<^verbatim>\<open>trajectory\<close>.
  The class \<^verbatim>\<open>AGUIToTrajectoryConverter\<close> is not among the sources. It is a parameter:
  \<open>processEvent\<close> takes the converter's state and an event and returns the steps and
  the new state, \<open>c0\<close> is the state of a new converter.
\<close>

record ('e, 's, 'c) execution =
  trajectory :: "'s list"
  rawEvents :: "'e list"
  converter :: 'c

definition on_sse_event ::
  "('c \<Rightarrow> 'e \<Rightarrow> 's list \<times> 'c) \<Rightarrow> ('e, 's, 'c) execution \<Rightarrow> 'e \<Rightarrow> ('e, 's, 'c) execution" where
  "on_sse_event processEvent st event =
     (case processEvent (converter st) event of
        (steps, c') \<Rightarrow>
          st\<lparr>rawEvents := rawEvents st @ [event],
             trajectory := trajectory st @ steps,
             converter := c'\<rparr>)"

text \<open>
  Modelled from the spec: \<^verbatim>\<open>consumeSSEStream\<close> (\<^verbatim>\<open>services/agent/sseStream\<close>) is
  missing. The Event Stream Reader produces the events one per unwrapped frame, in
  arrival order, and the control flow is a per-event callback: the callback is folded
  over the events.
\<close>

definition consumeSSEStream :: "('a \<Rightarrow> 'e \<Rightarrow> 'a) \<Rightarrow> 'a \<Rightarrow> 'e list \<Rightarrow> 'a" where
  "consumeSSEStream callback st events = foldl callback st events"

definition execute ::
  "('c \<Rightarrow> 'e \<Rightarrow> 's list \<times> 'c) \<Rightarrow> 'c \<Rightarrow> 'e list \<Rightarrow> ('e, 's, 'c) execution" where
  "execute processEvent c0 events =
     consumeSSEStream (on_sse_event processEvent)
       \<lparr>trajectory = [], rawEvents = [], converter = c0\<rparr> events"

text \<open>
  Modelled from the spec: \<^verbatim>\<open>computeTrajectoryFromRawEvents\<close>
  (\<^verbatim>\<open>services/agent/aguiConverter\<close>) is missing. The replay entry point re-derives the
  trajectory by constructing a fresh converter and feeding the events through
  \<^verbatim>\<open>processEvent\<close> in original order.
\<close>

fun feed :: "('c \<Rightarrow> 'e \<Rightarrow> 's list \<times> 'c) \<Rightarrow> 'c \<Rightarrow> 'e list \<Rightarrow> 's list" where
  "feed processEvent c [] = []"
| "feed processEvent c (event # events) =
     (case processEvent c event of (steps, c') \<Rightarrow> steps @ feed processEvent c' events)"

definition computeTrajectoryFromRawEvents ::
  "('c \<Rightarrow> 'e \<Rightarrow> 's list \<times> 'c) \<Rightarrow> 'c \<Rightarrow> 'e list \<Rightarrow> 's list" where
  "computeTrajectoryFromRawEvents processEvent c0 events = feed processEvent c0 events"

text \<open>\<^verbatim>\<open>OllyConnector.parseResponse\<close> (lines 132-134).\<close>

definition parseResponse :: "('c \<Rightarrow> 'e \<Rightarrow> 's list \<times> 'c) \<Rightarrow> 'c \<Rightarrow> 'e list \<Rightarrow> 's list" where
  "parseResponse processEvent c0 events = computeTrajectoryFromRawEvents processEvent c0 events"

text \<open>
  Modelled from the spec: \<^verbatim>\<open>processEvent\<close> of the Trajectory Converter (section 4.2),
  used below as an instance of the parameter. Content appends the delta to the buffer
  and emits nothing; an end emits one step made of the buffer, empty or not, and
  clears it; a tool-call start with a name emits its step at once (the policy the
  specification leaves open, fixed here); any other type changes nothing.
\<close>

datatype trajectory_step = TextStep string | ToolCallStep json

definition spec_processEvent :: "string \<Rightarrow> json \<Rightarrow> trajectory_step list \<times> string" where
  "spec_processEvent buffer ev =
     (if is_content ev then ([], buffer @ delta_of ev)
      else if is_end ev then ([TextStep buffer], [])
      else (case tool_name ev of
              Some n \<Rightarrow> ([ToolCallStep n], buffer)
            | None \<Rightarrow> ([], buffer)))"

section \<open>A concrete platform, for evaluating examples\<close>

text \<open>
  The theorems hold for every \<open>parse\<close> and \<open>decode\<close>. The examples need one of each.
  \<open>json_parse\<close> reads a fragment of JSON as \<^verbatim>\<open>JSON.parse\<close> does: objects (a repeated
  key keeps its last value), arrays, strings with the two-character escapes, the three
  literals and integers of at most 15 digits; any other text is refused, so outside
  the fragment (\<^verbatim>\<open>\u\<close> escapes, fractions, exponents) it says less than \<^verbatim>\<open>JSON.parse\<close>.
  The recursion is bounded by fuel, twice the length of the text being enough for one
  step per character and one per element. \<open>ascii_decode\<close> is \<^verbatim>\<open>TextDecoder\<close> on
  chunks of ASCII bytes: each byte is one code unit and nothing is held back.
\<close>

definition json_ws :: "char \<Rightarrow> bool" where
  "json_ws c = (c = CHR 0x20 \<or> c = CHR 0x09 \<or> c = CHR 0x0A \<or> c = CHR 0x0D)"

definition skip_ws :: "string \<Rightarrow> string" where
  "skip_ws s = dropWhile json_ws s"

definition unescape :: "char \<Rightarrow> char option" where
  "unescape e =
     (if e = CHR 0x22 \<or> e = CHR 0x5C \<or> e = CHR ''/'' then Some e
      else if e = CHR ''b'' then Some (CHR 0x08)
      else if e = CHR ''f'' then Some (CHR 0x0C)
      else if e = CHR ''n'' then Some (CHR 0x0A)
      else if e = CHR ''r'' then Some (CHR 0x0D)
      else if e = CHR ''t'' then Some (CHR 0x09)
      else None)"

fun lex_string :: "string \<Rightarrow> (string \<times> string) option" where
  "lex_string [] = None"
| "lex_string (c # cs) =
     (if c = CHR 0x22 then Some ([], cs)
      else if c = CHR 0x5C then
        (case cs of
           [] \<Rightarrow> None
         | e # r \<Rightarrow>
             (case unescape e of
                None \<Rightarrow> None
              | Some u \<Rightarrow>
                  (case lex_string r of None \<Rightarrow> None | Some (s, r') \<Rightarrow> Some (u # s, r'))))
      else if (of_char c :: nat) < 32 then None
      else (case lex_string cs of None \<Rightarrow> None | Some (s, r') \<Rightarrow> Some (c # s, r')))"

definition is_digit :: "char \<Rightarrow> bool" where
  "is_digit c = (48 \<le> (of_char c :: nat) \<and> (of_char c :: nat) \<le> 57)"

definition lex_number :: "string \<Rightarrow> (json \<times> string) option" where
  "lex_number s =
     (let neg = (take 1 s = ''-'');
          t = (if neg then drop 1 s else s);
          ds = takeWhile is_digit t;
          r = dropWhile is_digit t
      in if ds = [] \<or> 15 < length ds then None
         else if ds = ''0'' then Some (JNum ''0'', r)
         else if take 1 ds = ''0'' then None
         else Some (JNum ((if neg then ''-'' else []) @ ds), r))"

fun parse_value :: "nat \<Rightarrow> string \<Rightarrow> (json \<times> string) option"
  and parse_elems :: "nat \<Rightarrow> string \<Rightarrow> (json list \<times> string) option"
  and parse_members :: "nat \<Rightarrow> string \<Rightarrow> ((string \<times> json) list \<times> string) option" where
  "parse_value 0 s = None"
| "parse_value (Suc n) s =
     (case skip_ws s of
        [] \<Rightarrow> None
      | c # cs \<Rightarrow>
          if c = CHR ''{'' then
            (if take 1 (skip_ws cs) = ''}'' then Some (JObj [], drop 1 (skip_ws cs))
             else (case parse_members n cs of
                     None \<Rightarrow> None
                   | Some (kvs, r) \<Rightarrow> Some (JObj (rev kvs), r)))
          else if c = CHR ''['' then
            (if take 1 (skip_ws cs) = '']'' then Some (JArr [], drop 1 (skip_ws cs))
             else (case parse_elems n cs of
                     None \<Rightarrow> None
                   | Some (vs, r) \<Rightarrow> Some (JArr vs, r)))
          else if c = CHR 0x22 then
            (case lex_string cs of None \<Rightarrow> None | Some (str, r) \<Rightarrow> Some (JStr str, r))
          else if take 4 (c # cs) = ''true'' then Some (JBool True, drop 3 cs)
          else if take 5 (c # cs) = ''false'' then Some (JBool False, drop 4 cs)
          else if take 4 (c # cs) = ''null'' then Some (JNull, drop 3 cs)
          else lex_number (c # cs))"
| "parse_elems 0 s = None"
| "parse_elems (Suc n) s =
     (case parse_value n s of
        None \<Rightarrow> None
      | Some (v, r) \<Rightarrow>
          (case skip_ws r of
             [] \<Rightarrow> None
           | c # r' \<Rightarrow>
               if c = CHR '','' then
                 (case parse_elems n r' of None \<Rightarrow> None | Some (vs, r'') \<Rightarrow> Some (v # vs, r''))
               else if c = CHR '']'' then Some ([v], r')
               else None))"
| "parse_members 0 s = None"
| "parse_members (Suc n) s =
     (case skip_ws s of
        [] \<Rightarrow> None
      | c # cs \<Rightarrow>
          if c \<noteq> CHR 0x22 then None
          else
            (case lex_string cs of
               None \<Rightarrow> None
             | Some (k, r) \<Rightarrow>
                 (case skip_ws r of
                    [] \<Rightarrow> None
                  | c2 # r2 \<Rightarrow>
                      if c2 \<noteq> CHR '':'' then None
                      else
                        (case parse_value n r2 of
                           None \<Rightarrow> None
                         | Some (v, r3) \<Rightarrow>
                             (case skip_ws r3 of
                                [] \<Rightarrow> None
                              | c3 # r4 \<Rightarrow>
                                  if c3 = CHR '','' then
                                    (case parse_members n r4 of
                                       None \<Rightarrow> None
                                     | Some (kvs, r5) \<Rightarrow> Some ((k, v) # kvs, r5))
                                  else if c3 = CHR ''}'' then Some ([(k, v)], r4)
                                  else None)))))"

definition json_parse :: "string \<Rightarrow> json option" where
  "json_parse s =
     (case parse_value (Suc (2 * length s)) s of
        None \<Rightarrow> None
      | Some (v, r) \<Rightarrow> if skip_ws r = [] then Some v else None)"

definition ascii_decode :: "unit \<Rightarrow> string \<Rightarrow> string \<times> unit" where
  "ascii_decode d v = (v, d)"

text \<open>
  The wire format of the examples: \<open>js_quote\<close> writes a string as a JSON string,
  \<open>sse_line\<close> wraps the text of an event in the envelope of section 6 and ends the line.
\<close>

definition js_quote :: "string \<Rightarrow> string" where
  "js_quote s =
     CHR 0x22 # concat (map (\<lambda>c. if c = CHR 0x22 \<or> c = CHR 0x5C then [CHR 0x5C, c] else [c]) s)
       @ [CHR 0x22]"

definition sse_frame :: "string \<Rightarrow> string" where
  \<open>sse_frame content =
     ''data: {"inference_results":[{"output":[{"name":"response","dataAsMap":{"content":''
       @ js_quote content @ ''}}]}]}''\<close>

definition sse_line :: "string \<Rightarrow> string" where
  "sse_line content = sse_frame content @ [CHR 0x0A]"

definition content_event :: "string \<Rightarrow> string" where
  \<open>content_event d = ''{"type":"TEXT_MESSAGE_CONTENT","delta":'' @ js_quote d @ ''}''\<close>

definition end_event :: string where
  \<open>end_event = ''{"type":"TEXT_MESSAGE_END"}''\<close>

definition start_event :: string where
  \<open>start_event = ''{"type":"TEXT_MESSAGE_START"}''\<close>

definition tool_event :: "string \<Rightarrow> string" where
  \<open>tool_event n = ''{"type":"TOOL_CALL_START","toolCallName":'' @ js_quote n @ ''}''\<close>

definition ok_response :: "string list \<Rightarrow> string http_response" where
  "ok_response chunks =
     \<lparr>ok = True, status = 200, text_of = None, body = Some (map Value chunks)\<rparr>"

section \<open>The read loop is a fold over the decoded events\<close>


lemma process_line_event:
  "process_line on_event parse st line =
     (case line_event parse line of None \<Rightarrow> st | Some ev \<Rightarrow> state_of (on_event st ev))"
  by (simp add: process_line_def line_event_def try_frame_def split: sum.splits option.splits)

lemma run_events_Nil: "run_events on_event st [] = st"
  by (simp add: run_events_def)

lemma run_events_Cons:
  "run_events on_event st (ev # evs) = run_events on_event (state_of (on_event st ev)) evs"
  by (simp add: run_events_def)

lemma run_events_append:
  "run_events on_event st (xs @ ys) = run_events on_event (run_events on_event st xs) ys"
  by (simp add: run_events_def)

lemma run_events_snoc:
  "run_events on_event st (evs @ [ev]) = state_of (on_event (run_events on_event st evs) ev)"
  by (simp add: run_events_def)

lemma foldl_process_line:
  "foldl (process_line on_event parse) st ls =
     run_events on_event st (List.map_filter (line_event parse) ls)"
proof (induction ls arbitrary: st)
  case Nil
  show ?case by (simp add: run_events_Nil)
next
  case (Cons l ls)
  have "foldl (process_line on_event parse) st (l # ls) =
          run_events on_event (process_line on_event parse st l)
            (List.map_filter (line_event parse) ls)"
    by (simp add: Cons.IH)
  also have "\<dots> = run_events on_event st (List.map_filter (line_event parse) (l # ls))"
    by (cases "line_event parse l")
       (simp_all add: process_line_event run_events_Cons)
  finally show ?case .
qed

lemma read_loop_events:
  "read_loop on_event parse decode d st (map Value chunks) =
     Inr (run_events on_event st (stream_events parse decode d chunks))"
proof (induction chunks arbitrary: d st)
  case Nil
  show ?case by (simp add: run_events_Nil)
next
  case (Cons v rest)
  show ?case
    by (cases "decode d v") (simp add: Cons.IH foldl_process_line run_events_append)
qed

lemma read_loop_rejected:
  "isl (read_loop on_event parse decode d st reads) = (Rejects \<in> set reads)"
proof (induction reads arbitrary: d st)
  case Nil
  show ?case by simp
next
  case (Cons r reads)
  show ?case
  proof (cases r)
    case (Value v)
    then show ?thesis
      by (cases "decode d v") (simp add: Cons.IH)
  next
    case Rejects
    then show ?thesis by simp
  qed
qed

lemma read_loop_error:
  "read_loop on_event parse decode d st reads = Inl e \<Longrightarrow> e = ReadRejected"
proof (induction reads arbitrary: d st)
  case Nil
  then show ?case by simp
next
  case (Cons r reads)
  show ?case
  proof (cases r)
    case (Value v)
    with Cons show ?thesis
      by (cases "decode d v") auto
  next
    case Rejects
    with Cons.prems show ?thesis by simp
  qed
qed

lemma collect_text_state:
  "string_delta ev \<Longrightarrow>
   state_of (collect_text st ev) =
     (if is_end ev then st\<lparr>fullResponse := fullResponse st @ currentMessage st, currentMessage := []\<rparr>
      else if is_content ev then st\<lparr>currentMessage := currentMessage st @ delta_of ev\<rparr>
      else st)"
  by (cases ev)
     (auto simp: collect_text_def get_prop_def is_end_def is_content_def has_type_def
        string_delta_def delta_of_def truthy_opt_def
        split: option.splits json.splits)

lemma track_tool_state:
  "state_of (track_tool st ev) =
     (case tool_name ev of None \<Rightarrow> st | Some n \<Rightarrow> st\<lparr>toolsUsed := toolsUsed st @ [n]\<rparr>)"
  by (auto simp: track_tool_def get_prop_def tool_name_def is_tool_start_def has_type_def
        truthy_opt_def split: option.splits)

lemma on_event_tau_state:
  "state_of (on_event_tau st ev) = state_of (collect_text (state_of (track_tool st ev)) ev)"
  by (auto simp: on_event_tau_def track_tool_def collect_text_def get_prop_def
        split: option.splits outcome.splits)


lemma upto_last_end_snoc:
  "upto_last_end (evs @ [e]) = (if is_end e then evs @ [e] else upto_last_end evs)"
  by (simp add: upto_last_end_def)

lemma after_last_end_snoc:
  "after_last_end (evs @ [e]) = (if is_end e then [] else after_last_end evs @ [e])"
  by (simp add: after_last_end_def)

lemma upto_after_last_end: "upto_last_end evs @ after_last_end evs = evs"
proof -
  have "upto_last_end evs @ after_last_end evs =
      rev (takeWhile (\<lambda>ev. \<not> is_end ev) (rev evs) @ dropWhile (\<lambda>ev. \<not> is_end ev) (rev evs))"
    unfolding upto_last_end_def after_last_end_def by (simp only: rev_append)
  also have "\<dots> = evs"
    by (simp only: takeWhile_dropWhile_id rev_rev_ident)
  finally show ?thesis .
qed

lemma deltas_Nil: "deltas [] = []"
  by (simp add: deltas_def)

lemma deltas_append: "deltas (xs @ ys) = deltas xs @ deltas ys"
  by (simp add: deltas_def)

lemma deltas_single: "deltas [e] = (if is_content e then delta_of e else [])"
  by (simp add: deltas_def)

lemma end_not_content: "is_end e \<Longrightarrow> \<not> is_content e"
  by (simp add: is_end_def is_content_def has_type_def)

lemma text_fold:
  fixes f :: "'a acc_scheme \<Rightarrow> json \<Rightarrow> 'a acc_scheme outcome"
  assumes full: "\<And>st ev. string_delta ev \<Longrightarrow>
      fullResponse (state_of (f st ev)) =
        (if is_end ev then fullResponse st @ currentMessage st else fullResponse st)"
    and cur: "\<And>st ev. string_delta ev \<Longrightarrow>
      currentMessage (state_of (f st ev)) =
        (if is_end ev then [] else if is_content ev then currentMessage st @ delta_of ev
         else currentMessage st)"
    and init: "fullResponse st0 = []" "currentMessage st0 = []"
  shows "list_all string_delta evs \<Longrightarrow>
      fullResponse (run_events f st0 evs) = deltas (upto_last_end evs) \<and>
      currentMessage (run_events f st0 evs) = deltas (after_last_end evs)"
proof (induction evs rule: rev_induct)
  case Nil
  show ?case
    by (simp add: run_events_Nil init upto_last_end_def after_last_end_def deltas_Nil)
next
  case (snoc e evs)
  then have IH: "fullResponse (run_events f st0 evs) = deltas (upto_last_end evs)"
      "currentMessage (run_events f st0 evs) = deltas (after_last_end evs)"
    and e: "string_delta e"
    by simp_all
  have whole: "deltas (upto_last_end evs) @ deltas (after_last_end evs) = deltas evs"
    by (simp add: upto_after_last_end flip: deltas_append)
  show ?case
  proof (cases "is_end e")
    case True
    then show ?thesis
      by (simp add: run_events_snoc full [OF e] cur [OF e] IH whole upto_last_end_snoc
            after_last_end_snoc deltas_append deltas_single end_not_content deltas_Nil)
  next
    case False
    then show ?thesis
      by (simp add: run_events_snoc full [OF e] cur [OF e] IH upto_last_end_snoc
            after_last_end_snoc deltas_append deltas_single)
  qed
qed

lemma on_event_mt_full:
  "string_delta ev \<Longrightarrow>
   fullResponse (state_of (on_event_mt st ev)) =
     (if is_end ev then fullResponse st @ currentMessage st else fullResponse st)"
  by (simp add: on_event_mt_def collect_text_state)

lemma on_event_mt_cur:
  "string_delta ev \<Longrightarrow>
   currentMessage (state_of (on_event_mt st ev)) =
     (if is_end ev then [] else if is_content ev then currentMessage st @ delta_of ev
      else currentMessage st)"
  by (simp add: on_event_mt_def collect_text_state)

lemma track_tool_text:
  "fullResponse (state_of (track_tool st ev)) = fullResponse st"
  "currentMessage (state_of (track_tool st ev)) = currentMessage st"
  by (simp_all add: track_tool_state split: option.splits)

lemma on_event_tau_full:
  "string_delta ev \<Longrightarrow>
   fullResponse (state_of (on_event_tau st ev)) =
     (if is_end ev then fullResponse st @ currentMessage st else fullResponse st)"
  by (simp add: on_event_tau_state collect_text_state track_tool_text)

lemma on_event_tau_cur:
  "string_delta ev \<Longrightarrow>
   currentMessage (state_of (on_event_tau st ev)) =
     (if is_end ev then [] else if is_content ev then currentMessage st @ delta_of ev
      else currentMessage st)"
  by (simp add: on_event_tau_state collect_text_state track_tool_text)

lemma mt_text:
  "list_all string_delta evs \<Longrightarrow>
   fullResponse (run_events on_event_mt mt_init evs)
     = deltas (upto_last_end evs) \<and>
   currentMessage (run_events on_event_mt mt_init evs)
     = deltas (after_last_end evs)"
  by (rule text_fold [OF on_event_mt_full on_event_mt_cur]) (simp_all add: mt_init_def)

lemma tau_text:
  "list_all string_delta evs \<Longrightarrow>
   fullResponse (run_events on_event_tau tau_init evs)
     = deltas (upto_last_end evs) \<and>
   currentMessage (run_events on_event_tau tau_init evs)
     = deltas (after_last_end evs)"
  by (rule text_fold [OF on_event_tau_full on_event_tau_cur]) (simp_all add: tau_init_def)


lemma collect_text_tools:
  "toolsUsed (state_of (collect_text st ev)) = toolsUsed st"
  by (auto simp: collect_text_def get_prop_def split: option.splits)

lemma on_event_tau_tools:
  "toolsUsed (state_of (on_event_tau st ev)) =
     (case tool_name ev of None \<Rightarrow> toolsUsed st | Some n \<Rightarrow> toolsUsed st @ [n])"
  by (simp add: on_event_tau_state collect_text_tools track_tool_state split: option.splits)

lemma tools_fold:
  "toolsUsed (run_events on_event_tau st evs) = toolsUsed st @ List.map_filter tool_name evs"
proof (induction evs arbitrary: st)
  case Nil
  show ?case by (simp add: run_events_Nil)
next
  case (Cons ev evs)
  show ?case
    by (simp add: run_events_Cons Cons.IH on_event_tau_tools split: option.splits)
qed

lemma collect_text_full_no_end:
  "\<not> is_end ev \<Longrightarrow> fullResponse (state_of (collect_text st ev)) = fullResponse st"
  by (auto simp: collect_text_def get_prop_def is_end_def has_type_def split: option.splits)

lemma on_event_tau_full_no_end:
  "\<not> is_end ev \<Longrightarrow> fullResponse (state_of (on_event_tau st ev)) = fullResponse st"
  by (simp add: on_event_tau_state collect_text_full_no_end track_tool_text)

lemma tau_full_no_end:
  "list_all (\<lambda>e. \<not> is_end e) rest \<Longrightarrow>
   fullResponse (run_events on_event_tau st rest) = fullResponse st"
  by (induction rest arbitrary: st) (simp_all add: run_events_Nil run_events_Cons on_event_tau_full_no_end)

lemma call_tau_ok:
  "ok resp \<Longrightarrow> body resp = Some (map Value chunks) \<Longrightarrow>
   callOasisAgent_tau parse decode d0 t0 t1 resp =
     Inr \<lparr>response = fullResponse (run_events on_event_tau tau_init (stream_events parse decode d0 chunks)),
          latencyMs = t1 - t0,
          toolsUsed_of = toolsUsed (run_events on_event_tau tau_init (stream_events parse decode d0 chunks))\<rparr>"
  by (simp add: callOasisAgent_tau_def read_loop_events)

lemma call_mt_ok:
  "ok resp \<Longrightarrow> body resp = Some (map Value chunks) \<Longrightarrow>
   callOasisAgent_mt parse decode d0 t0 t1 resp =
     Inr \<lparr>response = finish_mt (run_events on_event_mt mt_init (stream_events parse decode d0 chunks)),
          latencyMs = t1 - t0\<rparr>"
  by (simp add: callOasisAgent_mt_def read_loop_events)

lemma finish_mt_text:
  "finish_mt st =
     (if js_trim (fullResponse st @ currentMessage st) = [] then ''No response received''
      else js_trim (fullResponse st @ currentMessage st))"
  by (simp add: finish_mt_def)

lemma live_feed:
  "rawEvents (foldl (on_sse_event processEvent) st events) = rawEvents st @ events \<and>
   trajectory (foldl (on_sse_event processEvent) st events) =
     trajectory st @ feed processEvent (converter st) events"
proof (induction events arbitrary: st)
  case Nil
  show ?case by simp
next
  case (Cons event events)
  show ?case
  proof (cases "processEvent (converter st) event")
    case (Pair steps c')
    then have step: "rawEvents (on_sse_event processEvent st event) = rawEvents st @ [event]"
      "trajectory (on_sse_event processEvent st event) = trajectory st @ steps"
      "converter (on_sse_event processEvent st event) = c'"
      by (simp_all add: on_sse_event_def)
    show ?thesis
      by (simp add: Cons.IH step Pair)
  qed
qed

section \<open>Auxiliary facts for the claims\<close>

lemma upto_last_end_closed:
  "evs = [] \<or> is_end (last evs) \<Longrightarrow> upto_last_end evs = evs"
  by (cases evs rule: rev_cases) (auto simp: upto_last_end_snoc upto_last_end_def)

lemma span_deltas:
  assumes "pre = [] \<or> is_end (last pre)" "is_end e"
  shows "deltas (upto_last_end (pre @ span @ [e])) = deltas (upto_last_end pre) @ deltas span"
proof -
  have "upto_last_end (pre @ span @ [e]) = pre @ span @ [e]"
    using assms(2) upto_last_end_snoc [of "pre @ span" e] by simp
  moreover have "upto_last_end pre = pre"
    using assms(1) by (rule upto_last_end_closed)
  ultimately show ?thesis
    using assms(2) by (simp add: deltas_append deltas_single end_not_content)
qed

lemma collect_text_not_content:
  "\<not> is_content ev \<Longrightarrow>
   state_of (collect_text st ev) =
     (if is_end ev then st\<lparr>fullResponse := fullResponse st @ currentMessage st, currentMessage := []\<rparr>
      else st)"
  by (auto simp: collect_text_def get_prop_def is_end_def is_content_def has_type_def
        split: option.splits)

lemma mt_no_content:
  "list_all (\<lambda>e. \<not> is_content e) evs \<Longrightarrow>
   fullResponse st = [] \<Longrightarrow> currentMessage st = [] \<Longrightarrow>
   fullResponse (run_events on_event_mt st evs) = [] \<and>
   currentMessage (run_events on_event_mt st evs) = []"
proof (induction evs arbitrary: st)
  case Nil
  then show ?case by (simp add: run_events_Nil)
next
  case (Cons ev evs)
  from Cons.prems have "\<not> is_content ev" by simp
  then have "fullResponse (state_of (on_event_mt st ev)) = []"
      "currentMessage (state_of (on_event_mt st ev)) = []"
    using Cons.prems(2,3) by (simp_all add: on_event_mt_def collect_text_not_content)
  with Cons.IH [of "state_of (on_event_mt st ev)"] Cons.prems(1)
  show ?case by (simp add: run_events_Cons)
qed

lemma find_response_find:
  "find_response xs = Inr r \<Longrightarrow> r = find named_response xs"
  by (induction xs)
     (auto simp: get_prop_def named_response_def split: if_splits)

lemma frame_fails_no_event:
  assumes "frame_fails parse payload"
  shows "unwrap_frame parse payload \<noteq> Inr (Some ev)"
proof
  assume ok: "unwrap_frame parse payload = Inr (Some ev)"
  from ok obtain data where data: "parse payload = Some data"
    by (auto simp: unwrap_frame_def split: option.splits)
  from ok data have nn: "data \<noteq> JNull"
    by (auto simp: unwrap_frame_def get_prop_def split: option.splits)
  from ok data nn obtain outputs where
    outputs: "opt_prop (opt_index0 (member data ''inference_results'')) ''output'' = Some outputs"
    by (auto simp: unwrap_frame_def get_prop_def split: option.splits)
  from ok data nn outputs obtain ro where ro: "outputs_find outputs = Inr ro"
    by (auto simp: unwrap_frame_def get_prop_def split: option.splits if_splits sum.splits)
  then obtain xs where arr: "outputs = JArr xs" and fr: "find_response xs = Inr ro"
    by (auto simp: outputs_find_def split: json.splits)
  from fr have found: "ro = find named_response xs"
    by (rule find_response_find)
  from ok data nn outputs ro obtain content where
    content: "opt_prop (opt_prop ro ''dataAsMap'') ''content'' = Some content"
    and parsed: "JSON_parse parse content = Inr ev"
    by (auto simp: unwrap_frame_def get_prop_def split: option.splits if_splits sum.splits)
  from content obtain r where r: "ro = Some r"
    by (cases ro) (auto simp: opt_prop_def)
  with content have content': "opt_prop (member r ''dataAsMap'') ''content'' = Some content"
    by (simp add: opt_prop_def)
  from found r have found': "find named_response xs = Some r"
    by simp
  from assms data outputs arr found' content' parsed show False
    by (simp add: frame_fails_def)
qed

lemma collect_text_unrecognized:
  "ev \<noteq> JNull \<Longrightarrow> \<not> is_content ev \<Longrightarrow> \<not> is_end ev \<Longrightarrow> collect_text st ev = Completed st"
  by (auto simp: collect_text_def get_prop_def is_content_def is_end_def has_type_def)

lemma track_tool_unrecognized:
  "ev \<noteq> JNull \<Longrightarrow> \<not> is_tool_start ev \<Longrightarrow> track_tool st ev = Completed st"
  by (auto simp: track_tool_def get_prop_def is_tool_start_def has_type_def)

lemma run_events_skip:
  "(\<And>s. state_of (on_event s ev) = s) \<Longrightarrow>
   run_events on_event st (pre @ ev # post) = run_events on_event st (pre @ post)"
  by (simp add: run_events_append run_events_Cons)

lemma run_events_filter:
  "(\<And>s e. \<not> keep e \<Longrightarrow> state_of (on_event s e) = s) \<Longrightarrow>
   run_events on_event st (filter keep evs) = run_events on_event st evs"
  by (induction evs arbitrary: st) (simp_all add: run_events_Nil run_events_Cons)

text \<open>
  What \<open>js_trim\<close> does: a text of white space alone trims to nothing; a text that
  neither starts nor ends with white space, wrapped in white space, trims to itself;
  what is left after trimming neither starts nor ends with white space.
\<close>

lemma js_trim_all_space: "list_all js_space s \<Longrightarrow> js_trim s = []"
proof -
  assume "list_all js_space s"
  then have none: "dropWhile js_space s = []"
    by (simp add: list_all_iff dropWhile_eq_Nil_conv)
  show ?thesis
    unfolding js_trim_def none by simp
qed

lemma dropWhile_keep: "t \<noteq> [] \<Longrightarrow> \<not> P (hd t) \<Longrightarrow> dropWhile P (t @ r) = t @ r"
  by (cases t) simp_all

lemma js_trim_core:
  assumes pre: "list_all js_space pre" and post: "list_all js_space post"
    and t: "t \<noteq> []" "\<not> js_space (hd t)" "\<not> js_space (last t)"
  shows "js_trim (pre @ t @ post) = t"
proof -
  have front: "dropWhile js_space (pre @ t @ post) = t @ post"
  proof -
    have "dropWhile js_space (pre @ t @ post) = dropWhile js_space (t @ post)"
      using pre by (intro dropWhile_append2) (simp add: list_all_iff)
    then show ?thesis
      using t(1,2) by (simp add: dropWhile_keep)
  qed
  have "rev (t @ post) = rev post @ rev t"
    by simp
  moreover have "dropWhile js_space (rev post @ rev t) = dropWhile js_space (rev t)"
    using post by (intro dropWhile_append2) (simp add: list_all_iff)
  moreover have "dropWhile js_space (rev t) = rev t"
    using t(1,3) dropWhile_keep [of "rev t" js_space "[]"] by (simp add: hd_rev)
  ultimately show ?thesis
    by (simp add: js_trim_def front)
qed

lemma js_trim_ends:
  assumes "js_trim s \<noteq> []"
  shows "\<not> js_space (hd (js_trim s)) \<and> \<not> js_space (last (js_trim s))"
proof -
  let ?u = "dropWhile js_space s"
  let ?v = "dropWhile js_space (rev ?u)"
  from assms have v: "?v \<noteq> []"
    by (simp add: js_trim_def)
  have "?u = [] \<Longrightarrow> ?v = []"
    by (simp only: rev.simps dropWhile.simps)
  with v have u: "?u \<noteq> []"
    by blast
  have last_t: "last (js_trim s) = hd ?v"
    using v by (simp add: js_trim_def last_rev)
  have "\<not> js_space (hd ?v)"
    using v by (rule hd_dropWhile)
  with last_t have one: "\<not> js_space (last (js_trim s))"
    by simp
  have "hd (js_trim s) = last ?v"
    using v by (simp add: js_trim_def hd_rev)
  also have "\<dots> = last (rev ?u)"
  proof -
    have "rev ?u = takeWhile js_space (rev ?u) @ ?v"
      by simp
    then have "last (rev ?u) = last (takeWhile js_space (rev ?u) @ ?v)"
      by simp
    also have "\<dots> = last ?v"
      using v by (rule last_appendR)
    finally show ?thesis by simp
  qed
  also have "\<dots> = hd ?u"
    using u by (simp add: last_rev)
  finally have "hd (js_trim s) = hd ?u" .
  moreover have "\<not> js_space (hd ?u)"
    using u by (rule hd_dropWhile)
  ultimately show ?thesis
    using one by simp
qed

lemma js_space_set:
  "js_space c = (c \<in> {CHR 0x09, CHR 0x0A, CHR 0x0B, CHR 0x0C, CHR 0x0D, CHR 0x20, CHR 0xA0})"
  by (simp add: js_space_def)

lemma js_space_fun:
  "js_space = (\<lambda>c. c \<in> {CHR 0x09, CHR 0x0A, CHR 0x0B, CHR 0x0C, CHR 0x0D, CHR 0x20, CHR 0xA0})"
  by (rule ext) (simp add: js_space_def)

lemma finish_mt_ends:
  "finish_mt st \<noteq> [] \<and> \<not> js_space (hd (finish_mt st)) \<and> \<not> js_space (last (finish_mt st))"
proof (cases "js_trim (fullResponse st @ currentMessage st) = []")
  case True
  then show ?thesis
    by (simp add: finish_mt_text js_space_def)
next
  case False
  then show ?thesis
    using js_trim_ends [OF False] by (simp add: finish_mt_text)
qed

lemma call_mt_result:
  "response_of (callOasisAgent_mt parse decode d0 t0 t1 resp) = Inr r \<Longrightarrow>
   \<exists>st. r = finish_mt st"
  by (auto simp: callOasisAgent_mt_def response_of_def split: if_splits option.splits sum.splits)

text \<open>
  Each failure of a frame that section 4.1 lists, on the concrete parser: no
  \<^verbatim>\<open>output\<close>, an \<^verbatim>\<open>output\<close> that is no array, no element named \<^verbatim>\<open>response\<close>, no
  content, a content that is not JSON; and a well-formed frame, which does not fail.
\<close>

lemma frame_fails_example:
  \<open>frame_fails json_parse ''{"inference_results":[{"result":[]}]}''
   \<and> frame_fails json_parse ''{"inference_results":[{"output":{"name":"response"}}]}''
   \<and> frame_fails json_parse ''{"inference_results":[{"output":[{"name":"memory_id"}]}]}''
   \<and> frame_fails json_parse ''{"inference_results":[{"output":[{"name":"response","dataAsMap":{}}]}]}''
   \<and> frame_fails json_parse ''{"inference_results":[{"output":[{"name":"response","dataAsMap":{"content":"{bad"}}]}]}''
   \<and> \<not> frame_fails json_parse (slice6 (sse_frame end_event))\<close>
  by code_simp

section \<open>The claims\<close>

text \<open>
  C1. The event fold is deterministic. The response text and the tool-name list of the
  tau-bench call do not depend on the two clock readings; they are the result of folding
  the event handler over the decoded events of the stream, so two streams that decode
  to the same events (whatever their chunks and arrival times) give the same text and
  tools. In the connector, replaying the raw events a live run captured through a fresh
  converter yields exactly the trajectory of the live run, for every converter whose
  \<^verbatim>\<open>processEvent\<close> is a function of its state and the event.
\<close>

theorem C1_fold_deterministic:
  "text_and_tools (callOasisAgent_tau parse decode d0 t0 t1 resp) =
     text_and_tools (callOasisAgent_tau parse decode d0 t0' t1' resp)
   \<and> (ok resp \<and> body resp = Some (map Value chunks) \<longrightarrow>
        text_and_tools (callOasisAgent_tau parse decode d0 t0 t1 resp) =
          Inr (fullResponse (run_events on_event_tau tau_init (stream_events parse decode d0 chunks)),
               toolsUsed (run_events on_event_tau tau_init (stream_events parse decode d0 chunks))))
   \<and> (ok resp \<and> body resp = Some (map Value chunks) \<and> ok resp' \<and> body resp' = Some (map Value chunks') \<and>
        stream_events parse decode d0 chunks = stream_events parse decode d0 chunks' \<longrightarrow>
        text_and_tools (callOasisAgent_tau parse decode d0 t0 t1 resp) =
          text_and_tools (callOasisAgent_tau parse decode d0 t0' t1' resp'))
   \<and> rawEvents (execute processEvent c0 events) = events
   \<and> parseResponse processEvent c0 (rawEvents (execute processEvent c0 events)) =
        trajectory (execute processEvent c0 events)"
proof -
  have clock: "text_and_tools (callOasisAgent_tau parse decode d0 t0 t1 resp) =
      text_and_tools (callOasisAgent_tau parse decode d0 t0' t1' resp)"
    by (simp add: callOasisAgent_tau_def text_and_tools_def split: option.splits sum.splits)
  have fold: "text_and_tools (callOasisAgent_tau parse decode d0 a b r) =
      Inr (fullResponse (run_events on_event_tau tau_init (stream_events parse decode d0 cs)),
           toolsUsed (run_events on_event_tau tau_init (stream_events parse decode d0 cs)))"
    if "ok r" "body r = Some (map Value cs)" for a b r cs
    using that by (simp add: call_tau_ok text_and_tools_def)
  have live: "rawEvents (execute processEvent c0 events) = events"
    "trajectory (execute processEvent c0 events) = feed processEvent c0 events"
    by (simp_all add: execute_def consumeSSEStream_def live_feed)
  have replay: "parseResponse processEvent c0 (rawEvents (execute processEvent c0 events)) =
      trajectory (execute processEvent c0 events)"
    by (simp add: live parseResponse_def computeTrajectoryFromRawEvents_def)
  show ?thesis
    using clock fold live(1) replay by simp
qed

theorem C1_fold_deterministic_witness:
  "text_and_tools (callOasisAgent_tau json_parse ascii_decode () 0 5
      (ok_response [sse_line (content_event ''Hi'') @ sse_line (tool_event ''search'') @ sse_line end_event]))
     = text_and_tools (callOasisAgent_tau json_parse ascii_decode () 1000 9000
      (ok_response [sse_line (content_event ''Hi''), sse_line (tool_event ''search'') @ sse_line end_event]))
   \<and> text_and_tools (callOasisAgent_tau json_parse ascii_decode () 0 5
      (ok_response [sse_line (content_event ''Hi'') @ sse_line (tool_event ''search'') @ sse_line end_event]))
     = Inr (''Hi'', [JStr ''search''])
   \<and> parseResponse spec_processEvent []
        (rawEvents (execute spec_processEvent []
          (stream_events json_parse ascii_decode ()
            [sse_line (content_event ''Hi''), sse_line (tool_event ''search'') @ sse_line end_event])))
     = [ToolCallStep (JStr ''search''), TextStep ''Hi'']"
proof -
  let ?A = "[sse_line (content_event ''Hi'') @ sse_line (tool_event ''search'') @ sse_line end_event]"
  let ?B = "[sse_line (content_event ''Hi''), sse_line (tool_event ''search'') @ sse_line end_event]"
  let ?evs = "stream_events json_parse ascii_decode () ?B"
  have same: "stream_events json_parse ascii_decode () ?A = ?evs"
    by code_simp
  have resp: "ok (ok_response ?A)" "body (ok_response ?A) = Some (map Value ?A)"
    "ok (ok_response ?B)" "body (ok_response ?B) = Some (map Value ?B)"
    by (simp_all add: ok_response_def)
  note inst = C1_fold_deterministic [where parse = json_parse and decode = ascii_decode
      and ?d0.0 = "()" and ?t0.0 = 0 and ?t1.0 = 5 and t0' = 1000 and t1' = 9000
      and resp = "ok_response ?A" and resp' = "ok_response ?B" and chunks = ?A and chunks' = ?B
      and processEvent = spec_processEvent and ?c0.0 = "[]" and events = ?evs]
  have one: "text_and_tools (callOasisAgent_tau json_parse ascii_decode () 0 5 (ok_response ?A))
      = text_and_tools (callOasisAgent_tau json_parse ascii_decode () 1000 9000 (ok_response ?B))"
    using inst same resp by blast
  have two: "text_and_tools (callOasisAgent_tau json_parse ascii_decode () 0 5 (ok_response ?A))
      = Inr (''Hi'', [JStr ''search''])"
    by code_simp
  have live: "trajectory (execute spec_processEvent [] ?evs)
      = [ToolCallStep (JStr ''search''), TextStep ''Hi'']"
    by code_simp
  have three: "parseResponse spec_processEvent [] (rawEvents (execute spec_processEvent [] ?evs))
      = [ToolCallStep (JStr ''search''), TextStep ''Hi'']"
  proof -
    from inst have "parseResponse spec_processEvent [] (rawEvents (execute spec_processEvent [] ?evs))
        = trajectory (execute spec_processEvent [] ?evs)"
      by blast
    then show ?thesis
      by (simp only: live)
  qed
  show ?thesis
    using one two three by blast
qed

text \<open>
  C2 (amended). For every event sequence whose deltas are strings, the text a
  \<^verbatim>\<open>TEXT_MESSAGE_END\<close> adds for its span is the exact concatenation, in arrival order,
  of the deltas of the \<^verbatim>\<open>TEXT_MESSAGE_CONTENT\<close> events since the previous end (or the
  start of the stream). In the tau-bench call the response is the in-order
  concatenation of the texts of the completed spans, untrimmed. In the MT-Bench call
  the response is that concatenation followed by the text of a span left open, with
  white space trimmed at both ends, or \<^verbatim>\<open>No response received\<close> when nothing is left.
\<close>

theorem C2_span_text:
  "(list_all string_delta evs \<and> stream_events parse decode d0 chunks = evs \<and>
      ok resp \<and> body resp = Some (map Value chunks) \<longrightarrow>
      response_of (callOasisAgent_tau parse decode d0 t0 t1 resp) = Inr (deltas (upto_last_end evs))
      \<and> response_of (callOasisAgent_mt parse decode d0 t0 t1 resp) =
          Inr (if js_trim (deltas (upto_last_end evs) @ deltas (after_last_end evs)) = []
               then ''No response received''
               else js_trim (deltas (upto_last_end evs) @ deltas (after_last_end evs))))
   \<and> (list_all string_delta (pre @ span @ [e]) \<and> (pre = [] \<or> is_end (last pre)) \<and>
      list_all (\<lambda>x. \<not> is_end x) span \<and> is_end e \<longrightarrow>
      fullResponse (run_events on_event_tau tau_init (pre @ span @ [e])) =
        fullResponse (run_events on_event_tau tau_init pre) @ deltas span
      \<and> fullResponse (run_events on_event_mt mt_init (pre @ span @ [e])) =
        fullResponse (run_events on_event_mt mt_init pre) @ deltas span)"
proof -
  have call: "response_of (callOasisAgent_tau parse decode d0 t0 t1 resp) = Inr (deltas (upto_last_end evs))
      \<and> response_of (callOasisAgent_mt parse decode d0 t0 t1 resp) =
          Inr (if js_trim (deltas (upto_last_end evs) @ deltas (after_last_end evs)) = []
               then ''No response received''
               else js_trim (deltas (upto_last_end evs) @ deltas (after_last_end evs)))"
    if "list_all string_delta evs" "stream_events parse decode d0 chunks = evs"
      "ok resp" "body resp = Some (map Value chunks)"
    using that tau_text [of evs] mt_text [of evs]
    by (simp add: call_tau_ok call_mt_ok response_of_def finish_mt_text)
  have span: "fullResponse (run_events on_event_tau tau_init (pre @ span @ [e])) =
        fullResponse (run_events on_event_tau tau_init pre) @ deltas span
      \<and> fullResponse (run_events on_event_mt mt_init (pre @ span @ [e])) =
        fullResponse (run_events on_event_mt mt_init pre) @ deltas span"
    if typed: "list_all string_delta (pre @ span @ [e])" and pre: "pre = [] \<or> is_end (last pre)"
      and e: "is_end e"
  proof -
    from typed have "list_all string_delta pre" by simp
    then show ?thesis
      using tau_text [OF typed] mt_text [OF typed] tau_text [of pre] mt_text [of pre]
        span_deltas [OF pre e, of span]
      by simp
  qed
  show ?thesis
    using call span by blast
qed

theorem C2_span_text_witness:
  "list_all string_delta
     (stream_events json_parse ascii_decode ()
        [sse_line (content_event ''Hel'') @ sse_line (content_event ''lo'') @ sse_line end_event])
   \<and> response_of (callOasisAgent_tau json_parse ascii_decode () 0 1
        (ok_response [sse_line (content_event ''Hel'') @ sse_line (content_event ''lo'') @ sse_line end_event]))
      = Inr ''Hello''
   \<and> is_end (JObj [(''type'', JStr ''TEXT_MESSAGE_END'')])
   \<and> fullResponse (run_events on_event_tau tau_init
        ([] @ [JObj [(''type'', JStr ''TEXT_MESSAGE_CONTENT''), (''delta'', JStr ''Hel'')],
               JObj [(''type'', JStr ''TEXT_MESSAGE_CONTENT''), (''delta'', JStr ''lo'')]]
            @ [JObj [(''type'', JStr ''TEXT_MESSAGE_END'')]]))
      = ''Hello''"
proof -
  let ?chunks = "[sse_line (content_event ''Hel'') @ sse_line (content_event ''lo'') @ sse_line end_event]"
  let ?evs = "stream_events json_parse ascii_decode () ?chunks"
  let ?span = "[JObj [(''type'', JStr ''TEXT_MESSAGE_CONTENT''), (''delta'', JStr ''Hel'')],
                JObj [(''type'', JStr ''TEXT_MESSAGE_CONTENT''), (''delta'', JStr ''lo'')]]"
  let ?e = "JObj [(''type'', JStr ''TEXT_MESSAGE_END'')]"
  have typed: "list_all string_delta ?evs"
    by code_simp
  have txt_eq: "deltas (upto_last_end ?evs) = ''Hello''"
    by code_simp
  have resp: "ok (ok_response ?chunks)" "body (ok_response ?chunks) = Some (map Value ?chunks)"
    by (simp_all add: ok_response_def)
  have typed': "list_all string_delta ([] @ ?span @ [?e])"
    by code_simp
  have no_end: "list_all (\<lambda>x. \<not> is_end x) ?span"
    by code_simp
  have e: "is_end ?e"
    by code_simp
  have start: "fullResponse (run_events on_event_tau tau_init []) = []"
    by code_simp
  have span_text: "deltas ?span = ''Hello''"
    by code_simp
  note inst = C2_span_text [where parse = json_parse and decode = ascii_decode and ?d0.0 = "()"
      and ?t0.0 = 0 and ?t1.0 = 1 and resp = "ok_response ?chunks" and chunks = ?chunks
      and evs = ?evs and pre = "[]" and span = ?span and e = ?e]
  from inst typed resp
  have "response_of (callOasisAgent_tau json_parse ascii_decode () 0 1 (ok_response ?chunks))
      = Inr (deltas (upto_last_end ?evs))"
    by blast
  then have one: "response_of (callOasisAgent_tau json_parse ascii_decode () 0 1 (ok_response ?chunks))
      = Inr ''Hello''"
    by (simp only: txt_eq)
  from inst typed' no_end e
  have "fullResponse (run_events on_event_tau tau_init ([] @ ?span @ [?e])) =
      fullResponse (run_events on_event_tau tau_init []) @ deltas ?span"
    by blast
  then have two: "fullResponse (run_events on_event_tau tau_init ([] @ ?span @ [?e])) = ''Hello''"
    by (simp only: start span_text append_Nil)
  show ?thesis
    using typed one e two by blast
qed

text \<open>
  Counterexample to C2 as stated, on the MT-Bench call: a completed span of text
  \<open>'' Hi ''\<close> gives the response \<open>''Hi''\<close>.
\<close>

theorem C2_counterexample:
  "response_of (callOasisAgent_mt json_parse ascii_decode () 0 1
      (ok_response [sse_line (content_event '' Hi '') @ sse_line end_event]))
     \<noteq> Inr (deltas (upto_last_end (stream_events json_parse ascii_decode ()
          [sse_line (content_event '' Hi '') @ sse_line end_event])))
   \<and> response_of (callOasisAgent_mt json_parse ascii_decode () 0 1
      (ok_response [sse_line (content_event '' Hi '') @ sse_line end_event])) = Inr ''Hi''
   \<and> deltas (upto_last_end (stream_events json_parse ascii_decode ()
          [sse_line (content_event '' Hi '') @ sse_line end_event])) = '' Hi ''"
  by code_simp

text \<open>
  C3. The result should not depend on how the transport chunks the bytes. The scripts
  split each chunk into lines on its own and keep nothing of an unfinished last line:
  the same bytes give the response \<open>''Hi''\<close> when the first line arrives whole, and
  lose the event when that line is split after its 40th byte (the first part is not
  JSON, the second does not start with \<^verbatim>\<open>data: \<close>).
\<close>

theorem C3_split_line_example:
  "take 40 (sse_line (content_event ''Hi'')) @ drop 40 (sse_line (content_event ''Hi''))
      = sse_line (content_event ''Hi'')
   \<and> text_and_tools (callOasisAgent_tau json_parse ascii_decode () 0 1
        (ok_response [sse_line (content_event ''Hi''), sse_line end_event])) = Inr (''Hi'', [])
   \<and> text_and_tools (callOasisAgent_tau json_parse ascii_decode () 0 1
        (ok_response [take 40 (sse_line (content_event ''Hi'')),
                      drop 40 (sse_line (content_event ''Hi'')), sse_line end_event])) = Inr ([], [])
   \<and> response_of (callOasisAgent_mt json_parse ascii_decode () 0 1
        (ok_response [sse_line (content_event ''Hi''), sse_line end_event])) = Inr ''Hi''
   \<and> response_of (callOasisAgent_mt json_parse ascii_decode () 0 1
        (ok_response [take 40 (sse_line (content_event ''Hi'')),
                      drop 40 (sse_line (content_event ''Hi'')), sse_line end_event]))
      = Inr ''No response received''"
  by code_simp

theorem C3_split_line_example_witness:
  "text_and_tools (callOasisAgent_tau json_parse ascii_decode () 0 1
        (ok_response [sse_line (content_event ''Hi''), sse_line end_event]))
     \<noteq> text_and_tools (callOasisAgent_tau json_parse ascii_decode () 0 1
        (ok_response [take 40 (sse_line (content_event ''Hi'')),
                      drop 40 (sse_line (content_event ''Hi'')), sse_line end_event]))"
proof -
  have "Inr (''Hi'', []) \<noteq> (Inr ([], []) :: error + string \<times> json list)"
    by simp
  with C3_split_line_example show ?thesis
    by metis
qed

text \<open>
  C4 (amended). In the tau-bench call, events after the last \<^verbatim>\<open>TEXT_MESSAGE_END\<close>
  contribute nothing to the response: a stream that ends with a span open returns the
  response of the stream cut at its last end, and a stream with no end at all returns
  the empty text. In the MT-Bench call the remaining message is added to the response
  before it is trimmed: the text of the open span is part of the response.
\<close>

theorem C4_open_span:
  "(ok resp \<and> body resp = Some (map Value chunks) \<and> ok resp' \<and> body resp' = Some (map Value chunks') \<and>
      stream_events parse decode d0 chunks' = stream_events parse decode d0 chunks @ rest \<and>
      list_all (\<lambda>e. \<not> is_end e) rest \<longrightarrow>
      response_of (callOasisAgent_tau parse decode d0 t0 t1 resp') =
        response_of (callOasisAgent_tau parse decode d0 t0 t1 resp))
   \<and> (ok resp \<and> body resp = Some (map Value chunks) \<and>
      list_all (\<lambda>e. \<not> is_end e) (stream_events parse decode d0 chunks) \<longrightarrow>
      response_of (callOasisAgent_tau parse decode d0 t0 t1 resp) = Inr [])
   \<and> (ok resp \<and> body resp = Some (map Value chunks) \<and>
      stream_events parse decode d0 chunks = evs @ rest \<and>
      list_all string_delta (evs @ rest) \<and> list_all (\<lambda>e. \<not> is_end e) rest \<longrightarrow>
      response_of (callOasisAgent_mt parse decode d0 t0 t1 resp) =
        Inr (if js_trim (deltas evs @ deltas rest) = [] then ''No response received''
             else js_trim (deltas evs @ deltas rest)))"
proof -
  have tail: "response_of (callOasisAgent_tau parse decode d0 t0 t1 resp') =
        response_of (callOasisAgent_tau parse decode d0 t0 t1 resp)"
    if "ok resp" "body resp = Some (map Value chunks)" "ok resp'" "body resp' = Some (map Value chunks')"
      "stream_events parse decode d0 chunks' = stream_events parse decode d0 chunks @ rest"
      "list_all (\<lambda>e. \<not> is_end e) rest"
    using that by (simp add: call_tau_ok response_of_def run_events_append tau_full_no_end)
  have none: "response_of (callOasisAgent_tau parse decode d0 t0 t1 resp) = Inr []"
    if "ok resp" "body resp = Some (map Value chunks)"
      "list_all (\<lambda>e. \<not> is_end e) (stream_events parse decode d0 chunks)"
    using that by (simp add: call_tau_ok response_of_def tau_full_no_end tau_init_def)
  have flushed: "response_of (callOasisAgent_mt parse decode d0 t0 t1 resp) =
        Inr (if js_trim (deltas evs @ deltas rest) = [] then ''No response received''
             else js_trim (deltas evs @ deltas rest))"
    if r: "ok resp" "body resp = Some (map Value chunks)"
      and evs: "stream_events parse decode d0 chunks = evs @ rest"
      and typed: "list_all string_delta (evs @ rest)"
  proof -
    have "deltas (upto_last_end (evs @ rest)) @ deltas (after_last_end (evs @ rest)) =
        deltas evs @ deltas rest"
      by (simp add: upto_after_last_end flip: deltas_append)
    then show ?thesis
      using mt_text [OF typed] r evs
      by (simp add: call_mt_ok response_of_def finish_mt_text)
  qed
  show ?thesis
    using tail none flushed by blast
qed

theorem C4_open_span_witness:
  "list_all (\<lambda>e. \<not> is_end e)
     (stream_events json_parse ascii_decode () [sse_line start_event @ sse_line (content_event ''Hi'')])
   \<and> list_all string_delta
     (stream_events json_parse ascii_decode () [sse_line start_event @ sse_line (content_event ''Hi'')])
   \<and> response_of (callOasisAgent_tau json_parse ascii_decode () 0 1
        (ok_response [sse_line start_event @ sse_line (content_event ''Hi'')])) = Inr []
   \<and> response_of (callOasisAgent_tau json_parse ascii_decode () 0 1
        (ok_response [sse_line start_event @ sse_line (content_event ''Hi'')]))
      = response_of (callOasisAgent_tau json_parse ascii_decode () 0 1 (ok_response []))
   \<and> response_of (callOasisAgent_mt json_parse ascii_decode () 0 1
        (ok_response [sse_line start_event @ sse_line (content_event ''Hi'')])) = Inr ''Hi''"
proof -
  let ?chunks = "[sse_line start_event @ sse_line (content_event ''Hi'')]"
  let ?evs = "stream_events json_parse ascii_decode () ?chunks"
  have no_end: "list_all (\<lambda>e. \<not> is_end e) ?evs"
    by code_simp
  have typed: "list_all string_delta ?evs"
    by code_simp
  have typed': "list_all string_delta ([] @ ?evs)"
    using typed by simp
  have split: "stream_events json_parse ascii_decode () ?chunks =
      stream_events json_parse ascii_decode () [] @ ?evs"
    "stream_events json_parse ascii_decode () ?chunks = [] @ ?evs"
    by simp_all
  have resp: "ok (ok_response ?chunks)" "body (ok_response ?chunks) = Some (map Value ?chunks)"
    "ok (ok_response ([] :: string list))" "body (ok_response ([] :: string list)) = Some (map Value [])"
    by (simp_all add: ok_response_def)
  have trimmed: "(if js_trim (deltas [] @ deltas ?evs) = [] then ''No response received''
      else js_trim (deltas [] @ deltas ?evs)) = ''Hi''"
    by code_simp
  note inst = C4_open_span [where parse = json_parse and decode = ascii_decode and ?d0.0 = "()"
      and ?t0.0 = 0 and ?t1.0 = 1 and resp' = "ok_response ?chunks" and chunks' = ?chunks
      and rest = ?evs and evs = "[]"]
  from inst [where resp = "ok_response ?chunks" and chunks = ?chunks] no_end resp
  have one: "response_of (callOasisAgent_tau json_parse ascii_decode () 0 1 (ok_response ?chunks)) = Inr []"
    by blast
  from inst [where resp = "ok_response []" and chunks = "[]"] no_end resp split(1)
  have two: "response_of (callOasisAgent_tau json_parse ascii_decode () 0 1 (ok_response ?chunks))
      = response_of (callOasisAgent_tau json_parse ascii_decode () 0 1 (ok_response []))"
    by blast
  from inst [where resp = "ok_response ?chunks" and chunks = ?chunks] no_end typed' resp split(2)
  have "response_of (callOasisAgent_mt json_parse ascii_decode () 0 1 (ok_response ?chunks)) =
      Inr (if js_trim (deltas [] @ deltas ?evs) = [] then ''No response received''
           else js_trim (deltas [] @ deltas ?evs))"
    by blast
  then have three: "response_of (callOasisAgent_mt json_parse ascii_decode () 0 1 (ok_response ?chunks))
      = Inr ''Hi''"
    by (simp only: trimmed)
  show ?thesis
    using no_end typed one two three by blast
qed

text \<open>
  Counterexample to C4 as stated, on the MT-Bench call: a stream that ends after a start and
  one content event, with no end, returns the content.
\<close>

theorem C4_counterexample:
  "list_all (\<lambda>e. \<not> is_end e)
     (stream_events json_parse ascii_decode () [sse_line start_event @ sse_line (content_event ''Hi'')])
   \<and> response_of (callOasisAgent_mt json_parse ascii_decode () 0 1
        (ok_response [sse_line start_event @ sse_line (content_event ''Hi'')])) = Inr ''Hi''
   \<and> response_of (callOasisAgent_mt json_parse ascii_decode () 0 1
        (ok_response [sse_line start_event @ sse_line (content_event ''Hi'')]))
      \<noteq> response_of (callOasisAgent_mt json_parse ascii_decode () 0 1 (ok_response [sse_line start_event]))"
  by code_simp

text \<open>
  C5. A frame that fails at any step of the unwrapping (the text after \<^verbatim>\<open>data: \<close> is
  not JSON, \<^verbatim>\<open>inference_results[0].output\<close> is missing or no array, no element is
  named \<^verbatim>\<open>response\<close>, the content is absent, the content is not JSON) produces no
  event and leaves the accumulators as they were, whatever was thrown on the way being
  caught; the lines before and after it are processed as if it were not there. This
  holds for the event handler of either script.
\<close>

theorem C5_failed_frame_skipped:
  "startsWith_data line \<and> frame_fails parse (slice6 line) \<longrightarrow>
     line_event parse line = None
     \<and> state_of (try_frame on_event parse st (slice6 line)) = st
     \<and> process_line on_event parse st line = st
     \<and> foldl (process_line on_event parse) st (before @ line # after) =
         foldl (process_line on_event parse) st (before @ after)"
proof (intro impI, elim conjE)
  assume d: "startsWith_data line" and f: "frame_fails parse (slice6 line)"
  have none: "line_event parse line = None"
    using frame_fails_no_event [OF f] d
    by (auto simp: line_event_def split: sum.splits option.splits)
  have skip: "process_line on_event parse s line = s" for s
    by (simp add: process_line_event none)
  have caught: "state_of (try_frame on_event parse st (slice6 line)) = st"
    using skip [of st] d by (simp add: process_line_def)
  show "line_event parse line = None
     \<and> state_of (try_frame on_event parse st (slice6 line)) = st
     \<and> process_line on_event parse st line = st
     \<and> foldl (process_line on_event parse) st (before @ line # after) =
         foldl (process_line on_event parse) st (before @ after)"
    using none caught skip by simp
qed

theorem C5_failed_frame_skipped_witness:
  "startsWith_data ''data: not-json'' \<and> frame_fails json_parse (slice6 ''data: not-json'')
   \<and> line_event json_parse ''data: not-json'' = None
   \<and> process_line on_event_tau json_parse tau_init ''data: not-json'' = tau_init
   \<and> foldl (process_line on_event_tau json_parse) tau_init
        ([sse_frame (content_event ''Hi'')] @ ''data: not-json'' # [sse_frame end_event])
      = foldl (process_line on_event_tau json_parse) tau_init
        ([sse_frame (content_event ''Hi'')] @ [sse_frame end_event])
   \<and> fullResponse (foldl (process_line on_event_tau json_parse) tau_init
        ([sse_frame (content_event ''Hi'')] @ ''data: not-json'' # [sse_frame end_event])) = ''Hi''"
proof -
  have d: "startsWith_data ''data: not-json''"
    by code_simp
  have f: "frame_fails json_parse (slice6 ''data: not-json'')"
    by code_simp
  have v: "fullResponse (foldl (process_line on_event_tau json_parse) tau_init
        ([sse_frame (content_event ''Hi'')] @ [sse_frame end_event])) = ''Hi''"
    by code_simp
  note inst = C5_failed_frame_skipped [where parse = json_parse and line = "''data: not-json''"
      and on_event = on_event_tau and st = tau_init
      and before = "[sse_frame (content_event ''Hi'')]" and after = "[sse_frame end_event]"]
  from inst d f
  have skipped: "line_event json_parse ''data: not-json'' = None
     \<and> process_line on_event_tau json_parse tau_init ''data: not-json'' = tau_init
     \<and> foldl (process_line on_event_tau json_parse) tau_init
        ([sse_frame (content_event ''Hi'')] @ ''data: not-json'' # [sse_frame end_event])
      = foldl (process_line on_event_tau json_parse) tau_init
        ([sse_frame (content_event ''Hi'')] @ [sse_frame end_event])"
    by blast
  then have "fullResponse (foldl (process_line on_event_tau json_parse) tau_init
        ([sse_frame (content_event ''Hi'')] @ ''data: not-json'' # [sse_frame end_event])) = ''Hi''"
    using v by (simp only:)
  with d f skipped show ?thesis
    by blast
qed

text \<open>
  C6. An event whose type is none of those the script recognises (content, end and,
  in the tau-bench script, tool-call start) completes without an exception and leaves
  every accumulator unchanged; the events after it are processed as if it were absent.
  (The JSON value \<^verbatim>\<open>null\<close> has no type to read: reading it throws, the throw is caught
  by the frame, and the accumulators are unchanged as well.)
\<close>

theorem C6_unrecognized_ignored:
  "(ev \<noteq> JNull \<and>
      member ev ''type'' \<notin> {Some (JStr ''TEXT_MESSAGE_CONTENT''), Some (JStr ''TEXT_MESSAGE_END''),
                              Some (JStr ''TOOL_CALL_START'')} \<longrightarrow>
      on_event_tau st ev = Completed st
      \<and> run_events on_event_tau st (pre @ ev # post) = run_events on_event_tau st (pre @ post))
   \<and> (ev \<noteq> JNull \<and>
      member ev ''type'' \<notin> {Some (JStr ''TEXT_MESSAGE_CONTENT''), Some (JStr ''TEXT_MESSAGE_END'')} \<longrightarrow>
      on_event_mt st' ev = Completed st'
      \<and> run_events on_event_mt st' (pre @ ev # post) = run_events on_event_mt st' (pre @ post))"
proof -
  have tau: "on_event_tau s ev = Completed s"
    if "ev \<noteq> JNull" "member ev ''type'' \<notin> {Some (JStr ''TEXT_MESSAGE_CONTENT''),
        Some (JStr ''TEXT_MESSAGE_END''), Some (JStr ''TOOL_CALL_START'')}" for s
    using that
    by (simp add: on_event_tau_def track_tool_unrecognized collect_text_unrecognized
          is_content_def is_end_def is_tool_start_def has_type_def)
  have mt: "on_event_mt s ev = Completed s"
    if "ev \<noteq> JNull" "member ev ''type'' \<notin> {Some (JStr ''TEXT_MESSAGE_CONTENT''),
        Some (JStr ''TEXT_MESSAGE_END'')}" for s
    using that
    by (simp add: on_event_mt_def collect_text_unrecognized is_content_def is_end_def has_type_def)
  show ?thesis
    using tau mt run_events_skip [of on_event_tau ev st pre post]
      run_events_skip [of on_event_mt ev st' pre post]
    by simp
qed

theorem C6_unrecognized_ignored_witness:
  "JObj [(''type'', JStr ''SOMETHING_UNKNOWN'')] \<noteq> JNull
   \<and> member (JObj [(''type'', JStr ''SOMETHING_UNKNOWN'')]) ''type''
        \<notin> {Some (JStr ''TEXT_MESSAGE_CONTENT''), Some (JStr ''TEXT_MESSAGE_END''),
            Some (JStr ''TOOL_CALL_START'')}
   \<and> on_event_tau tau_init (JObj [(''type'', JStr ''SOMETHING_UNKNOWN'')]) = Completed tau_init
   \<and> on_event_mt mt_init (JObj [(''type'', JStr ''SOMETHING_UNKNOWN'')]) = Completed mt_init
   \<and> fullResponse (run_events on_event_tau tau_init
        ([] @ JObj [(''type'', JStr ''SOMETHING_UNKNOWN'')] #
          [JObj [(''type'', JStr ''TEXT_MESSAGE_START'')],
           JObj [(''type'', JStr ''TEXT_MESSAGE_CONTENT''), (''delta'', JStr ''Hi'')],
           JObj [(''type'', JStr ''TEXT_MESSAGE_END'')]])) = ''Hi''"
proof -
  let ?u = "JObj [(''type'', JStr ''SOMETHING_UNKNOWN'')]"
  let ?post = "[JObj [(''type'', JStr ''TEXT_MESSAGE_START'')],
           JObj [(''type'', JStr ''TEXT_MESSAGE_CONTENT''), (''delta'', JStr ''Hi'')],
           JObj [(''type'', JStr ''TEXT_MESSAGE_END'')]]"
  have nn: "?u \<noteq> JNull"
    by simp
  have unknown: "member ?u ''type'' \<notin> {Some (JStr ''TEXT_MESSAGE_CONTENT''),
      Some (JStr ''TEXT_MESSAGE_END''), Some (JStr ''TOOL_CALL_START'')}"
    by simp
  then have unknown': "member ?u ''type'' \<notin> {Some (JStr ''TEXT_MESSAGE_CONTENT''),
      Some (JStr ''TEXT_MESSAGE_END'')}"
    by simp
  have triplet: "fullResponse (run_events on_event_tau tau_init ([] @ ?post)) = ''Hi''"
    by code_simp
  note inst = C6_unrecognized_ignored [where ev = ?u and st = tau_init and st' = mt_init
      and pre = "[]" and post = ?post]
  from inst nn unknown unknown'
  have ignored: "on_event_tau tau_init ?u = Completed tau_init
      \<and> on_event_mt mt_init ?u = Completed mt_init
      \<and> run_events on_event_tau tau_init ([] @ ?u # ?post) = run_events on_event_tau tau_init ([] @ ?post)"
    by blast
  then have "fullResponse (run_events on_event_tau tau_init ([] @ ?u # ?post)) = ''Hi''"
    using triplet by (simp only:)
  with nn unknown ignored show ?thesis
    by blast
qed

text \<open>
  C7 (amended). A response that is not ok, or that has no body, makes the call throw
  before anything of the body is read: the error is fixed by the status (and the error
  text) alone. Once streaming has begun, nothing a chunk holds makes the call fail,
  whatever the parser and the decoder make of it: the call fails exactly when a
  \<^verbatim>\<open>reader.read()\<close> rejects. The loop has a \<^verbatim>\<open>finally\<close> and no \<^verbatim>\<open>catch\<close>, so that
  rejection reaches the caller and the text and tools accumulated so far are not
  returned. A stream read to its end returns a result.
\<close>

theorem C7_setup_or_read_failure:
  "(\<not> ok resp \<or> body resp = None \<longrightarrow>
      callOasisAgent_tau parse decode d0 t0 t1 resp = Inl (AgentRequestFailed (status resp))
      \<and> callOasisAgent_mt parse decode d0 t0 t1 resp =
          Inl (if \<not> ok resp
               then (case text_of resp of None \<Rightarrow> TextRejected
                     | Some errorText \<Rightarrow> AgentError (status resp) errorText)
               else NoResponseBody))
   \<and> (ok resp \<and> body resp = Some reads \<longrightarrow>
      isl (callOasisAgent_tau parse decode d0 t0 t1 resp) = (Rejects \<in> set reads)
      \<and> isl (callOasisAgent_mt parse decode d0 t0 t1 resp) = (Rejects \<in> set reads))
   \<and> (ok resp \<and> body resp = Some reads \<and> Rejects \<in> set reads \<longrightarrow>
      callOasisAgent_tau parse decode d0 t0 t1 resp = Inl ReadRejected
      \<and> callOasisAgent_mt parse decode d0 t0 t1 resp = Inl ReadRejected)
   \<and> (ok resp \<and> body resp = Some (map Value chunks) \<longrightarrow>
      \<not> isl (callOasisAgent_tau parse decode d0 t0 t1 resp)
      \<and> \<not> isl (callOasisAgent_mt parse decode d0 t0 t1 resp))"
proof -
  have early: "callOasisAgent_tau parse decode d0 t0 t1 resp = Inl (AgentRequestFailed (status resp))
      \<and> callOasisAgent_mt parse decode d0 t0 t1 resp =
          Inl (if \<not> ok resp
               then (case text_of resp of None \<Rightarrow> TextRejected
                     | Some errorText \<Rightarrow> AgentError (status resp) errorText)
               else NoResponseBody)"
    if "\<not> ok resp \<or> body resp = None"
    using that by (auto simp: callOasisAgent_tau_def callOasisAgent_mt_def split: option.splits)
  have fails: "isl (callOasisAgent_tau parse decode d0 t0 t1 resp) = (Rejects \<in> set reads)
      \<and> isl (callOasisAgent_mt parse decode d0 t0 t1 resp) = (Rejects \<in> set reads)"
    if r: "ok resp" "body resp = Some reads"
  proof -
    have "isl (callOasisAgent_tau parse decode d0 t0 t1 resp) =
        isl (read_loop on_event_tau parse decode d0 tau_init reads)"
      using r by (simp add: callOasisAgent_tau_def split: sum.splits)
    moreover have "isl (callOasisAgent_mt parse decode d0 t0 t1 resp) =
        isl (read_loop on_event_mt parse decode d0 mt_init reads)"
      using r by (simp add: callOasisAgent_mt_def split: sum.splits)
    ultimately show ?thesis
      by (simp add: read_loop_rejected)
  qed
  have rejected: "callOasisAgent_tau parse decode d0 t0 t1 resp = Inl ReadRejected
      \<and> callOasisAgent_mt parse decode d0 t0 t1 resp = Inl ReadRejected"
    if r: "ok resp" "body resp = Some reads" and rej: "Rejects \<in> set reads"
  proof -
    from rej obtain e where "read_loop on_event_tau parse decode d0 tau_init reads = Inl e"
      using read_loop_rejected [of on_event_tau parse decode d0 tau_init reads]
      by (cases "read_loop on_event_tau parse decode d0 tau_init reads") auto
    then have tau: "read_loop on_event_tau parse decode d0 tau_init reads = Inl ReadRejected"
      using read_loop_error [of on_event_tau parse decode d0 tau_init reads e] by simp
    from rej obtain e' where "read_loop on_event_mt parse decode d0 mt_init reads = Inl e'"
      using read_loop_rejected [of on_event_mt parse decode d0 mt_init reads]
      by (cases "read_loop on_event_mt parse decode d0 mt_init reads") auto
    then have mt: "read_loop on_event_mt parse decode d0 mt_init reads = Inl ReadRejected"
      using read_loop_error [of on_event_mt parse decode d0 mt_init reads e'] by simp
    show ?thesis
      using r tau mt by (simp add: callOasisAgent_tau_def callOasisAgent_mt_def)
  qed
  have complete: "\<not> isl (callOasisAgent_tau parse decode d0 t0 t1 resp)
      \<and> \<not> isl (callOasisAgent_mt parse decode d0 t0 t1 resp)"
    if "ok resp" "body resp = Some (map Value chunks)"
    using that by (simp add: call_tau_ok call_mt_ok)
  show ?thesis
    using early fails rejected complete by blast
qed

theorem C7_setup_or_read_failure_witness:
  "callOasisAgent_tau json_parse ascii_decode () 0 1
      \<lparr>ok = False, status = 503, text_of = Some ''busy'',
       body = Some [Value (sse_line (content_event ''Hi''))]\<rparr>
     = Inl (AgentRequestFailed 503)
   \<and> callOasisAgent_mt json_parse ascii_decode () 0 1
      \<lparr>ok = False, status = 503, text_of = Some ''busy'',
       body = Some [Value (sse_line (content_event ''Hi''))]\<rparr>
     = Inl (AgentError 503 ''busy'')
   \<and> callOasisAgent_tau json_parse ascii_decode () 0 1
      \<lparr>ok = True, status = 200, text_of = None, body = None :: string read list option\<rparr>
     = Inl (AgentRequestFailed 200)
   \<and> callOasisAgent_mt json_parse ascii_decode () 0 1
      \<lparr>ok = True, status = 200, text_of = None, body = None :: string read list option\<rparr>
     = Inl NoResponseBody
   \<and> \<not> isl (callOasisAgent_tau json_parse ascii_decode () 0 1
        (ok_response [''data: not-json'' @ [CHR 0x0A] @ ''data: null'' @ [CHR 0x0A]]))
   \<and> \<not> isl (callOasisAgent_mt json_parse ascii_decode () 0 1
        (ok_response [''data: not-json'' @ [CHR 0x0A] @ ''data: null'' @ [CHR 0x0A]]))
   \<and> callOasisAgent_tau json_parse ascii_decode () 0 1
        \<lparr>ok = True, status = 200, text_of = None,
         body = Some [Value (sse_line (content_event ''Hi'')), Rejects]\<rparr>
      = Inl ReadRejected
   \<and> callOasisAgent_mt json_parse ascii_decode () 0 1
        \<lparr>ok = True, status = 200, text_of = None,
         body = Some [Value (sse_line (content_event ''Hi'')), Rejects]\<rparr>
      = Inl ReadRejected"
proof -
  let ?bad = "\<lparr>ok = False, status = 503, text_of = Some ''busy'',
      body = Some [Value (sse_line (content_event ''Hi''))]\<rparr>"
  let ?nobody = "\<lparr>ok = True, status = 200, text_of = None, body = None :: string read list option\<rparr>"
  let ?chunks = "[''data: not-json'' @ [CHR 0x0A] @ ''data: null'' @ [CHR 0x0A]]"
  let ?reads = "[Value (sse_line (content_event ''Hi'')), Rejects]"
  let ?cut = "\<lparr>ok = True, status = 200, text_of = None, body = Some ?reads\<rparr>"
  note inst = C7_setup_or_read_failure [where parse = json_parse and decode = ascii_decode
      and ?d0.0 = "()" and ?t0.0 = 0 and ?t1.0 = 1]
  have one: "callOasisAgent_tau json_parse ascii_decode () 0 1 ?bad = Inl (AgentRequestFailed 503)
      \<and> callOasisAgent_mt json_parse ascii_decode () 0 1 ?bad = Inl (AgentError 503 ''busy'')"
    using inst [where resp = ?bad] by simp
  have two: "callOasisAgent_tau json_parse ascii_decode () 0 1 ?nobody = Inl (AgentRequestFailed 200)
      \<and> callOasisAgent_mt json_parse ascii_decode () 0 1 ?nobody = Inl NoResponseBody"
    using inst [where resp = ?nobody] by simp
  have three: "\<not> isl (callOasisAgent_tau json_parse ascii_decode () 0 1 (ok_response ?chunks))
      \<and> \<not> isl (callOasisAgent_mt json_parse ascii_decode () 0 1 (ok_response ?chunks))"
    using inst [where resp = "ok_response ?chunks" and chunks = ?chunks]
    by (simp add: ok_response_def)
  have four: "callOasisAgent_tau json_parse ascii_decode () 0 1 ?cut = Inl ReadRejected
      \<and> callOasisAgent_mt json_parse ascii_decode () 0 1 ?cut = Inl ReadRejected"
    using inst [where resp = ?cut and reads = ?reads] by simp
  show ?thesis
    using one two three four by blast
qed

text \<open>
  Counterexample to C7 as stated: the response is ok and has a body, the first read
  delivers a complete span \<open>''Hi''\<close>, the second read rejects. The call throws an error
  that is no setup failure and returns no partial result, in both scripts.
\<close>

theorem C7_counterexample:
  "ok \<lparr>ok = True, status = 200, text_of = None,
        body = Some [Value (sse_line (content_event ''Hi'') @ sse_line end_event), Rejects]\<rparr>
   \<and> body \<lparr>ok = True, status = 200, text_of = None,
        body = Some [Value (sse_line (content_event ''Hi'') @ sse_line end_event), Rejects]\<rparr> \<noteq> None
   \<and> callOasisAgent_tau json_parse ascii_decode () 0 1
        \<lparr>ok = True, status = 200, text_of = None,
         body = Some [Value (sse_line (content_event ''Hi'') @ sse_line end_event), Rejects]\<rparr>
      = Inl ReadRejected
   \<and> callOasisAgent_mt json_parse ascii_decode () 0 1
        \<lparr>ok = True, status = 200, text_of = None,
         body = Some [Value (sse_line (content_event ''Hi'') @ sse_line end_event), Rejects]\<rparr>
      = Inl ReadRejected
   \<and> response_of (callOasisAgent_tau json_parse ascii_decode () 0 1
        \<lparr>ok = True, status = 200, text_of = None,
         body = Some [Value (sse_line (content_event ''Hi'') @ sse_line end_event)]\<rparr>)
      = Inr ''Hi''"
  by code_simp

text \<open>
  C8. In the tau-bench script a \<^verbatim>\<open>TOOL_CALL_START\<close> event that carries a name (a truthy
  \<^verbatim>\<open>toolCallName\<close>, which is the script's test) appends that name to \<^verbatim>\<open>toolsUsed\<close> as
  soon as the event is processed; a start without a name changes nothing; an event of
  any other type (tool-call end and args included) leaves the list as it is. The list
  returned is the list of the names of the start events of the stream, in arrival
  order.
\<close>

theorem C8_tool_names_eager:
  "(is_tool_start ev \<and> member ev ''toolCallName'' = Some n \<and> truthy n \<longrightarrow>
      on_event_tau st ev = Completed (st\<lparr>toolsUsed := toolsUsed st @ [n]\<rparr>))
   \<and> (is_tool_start ev \<and> \<not> truthy_opt (member ev ''toolCallName'') \<longrightarrow>
      on_event_tau st ev = Completed st)
   \<and> (\<not> is_tool_start ev \<longrightarrow> toolsUsed (state_of (on_event_tau st ev)) = toolsUsed st)
   \<and> toolsUsed (run_events on_event_tau st evs) = toolsUsed st @ List.map_filter tool_name evs
   \<and> (ok resp \<and> body resp = Some (map Value chunks) \<longrightarrow>
      map_sum id toolsUsed_of (callOasisAgent_tau parse decode d0 t0 t1 resp) =
        Inr (List.map_filter tool_name (stream_events parse decode d0 chunks)))"
proof -
  have named: "on_event_tau st ev = Completed (st\<lparr>toolsUsed := toolsUsed st @ [n]\<rparr>)"
    if "is_tool_start ev" "member ev ''toolCallName'' = Some n" "truthy n"
  proof -
    from that(2) have nn: "ev \<noteq> JNull" by auto
    from that(1) have "\<not> is_content ev" "\<not> is_end ev"
      by (simp_all add: is_tool_start_def is_content_def is_end_def has_type_def)
    with nn that show ?thesis
      by (simp add: on_event_tau_def track_tool_def get_prop_def truthy_opt_def
            is_tool_start_def has_type_def collect_text_unrecognized)
  qed
  have unnamed: "on_event_tau st ev = Completed st"
    if "is_tool_start ev" "\<not> truthy_opt (member ev ''toolCallName'')"
  proof -
    from that(1) have nn: "ev \<noteq> JNull"
      by (auto simp: is_tool_start_def has_type_def)
    from that(1) have "\<not> is_content ev" "\<not> is_end ev"
      by (simp_all add: is_tool_start_def is_content_def is_end_def has_type_def)
    with nn that show ?thesis
      by (simp add: on_event_tau_def track_tool_def get_prop_def collect_text_unrecognized)
  qed
  have other: "toolsUsed (state_of (on_event_tau st ev)) = toolsUsed st" if "\<not> is_tool_start ev"
    using that by (simp add: on_event_tau_tools tool_name_def split: option.splits)
  have call: "map_sum id toolsUsed_of (callOasisAgent_tau parse decode d0 t0 t1 resp) =
        Inr (List.map_filter tool_name (stream_events parse decode d0 chunks))"
    if "ok resp" "body resp = Some (map Value chunks)"
    using that by (simp add: call_tau_ok tools_fold tau_init_def)
  show ?thesis
    using named unnamed other call tools_fold [of st evs] by blast
qed

theorem C8_tool_names_eager_witness:
  "is_tool_start (JObj [(''type'', JStr ''TOOL_CALL_START''), (''toolCallName'', JStr ''search'')])
   \<and> on_event_tau tau_init (JObj [(''type'', JStr ''TOOL_CALL_START''), (''toolCallName'', JStr ''search'')])
      = Completed (tau_init\<lparr>toolsUsed := toolsUsed tau_init @ [JStr ''search'']\<rparr>)
   \<and> on_event_tau tau_init (JObj [(''type'', JStr ''TOOL_CALL_START'')]) = Completed tau_init
   \<and> toolsUsed (state_of (on_event_tau tau_init
        (JObj [(''type'', JStr ''TOOL_CALL_END''), (''toolCallName'', JStr ''search'')]))) = toolsUsed tau_init
   \<and> map_sum id toolsUsed_of (callOasisAgent_tau json_parse ascii_decode () 0 1
        (ok_response [sse_line (tool_event ''search'') @ sse_line (content_event ''Hi'')
                      @ sse_line (tool_event ''index'')]))
      = Inr [JStr ''search'', JStr ''index'']"
proof -
  let ?named = "JObj [(''type'', JStr ''TOOL_CALL_START''), (''toolCallName'', JStr ''search'')]"
  let ?unnamed = "JObj [(''type'', JStr ''TOOL_CALL_START'')]"
  let ?closing = "JObj [(''type'', JStr ''TOOL_CALL_END''), (''toolCallName'', JStr ''search'')]"
  let ?chunks = "[sse_line (tool_event ''search'') @ sse_line (content_event ''Hi'')
                      @ sse_line (tool_event ''index'')]"
  have h1: "is_tool_start ?named" "member ?named ''toolCallName'' = Some (JStr ''search'')"
    "truthy (JStr ''search'')"
    by code_simp+
  have h2: "is_tool_start ?unnamed" "\<not> truthy_opt (member ?unnamed ''toolCallName'')"
    by code_simp+
  have h3: "\<not> is_tool_start ?closing"
    by code_simp
  have resp: "ok (ok_response ?chunks)" "body (ok_response ?chunks) = Some (map Value ?chunks)"
    by (simp_all add: ok_response_def)
  have names: "List.map_filter tool_name (stream_events json_parse ascii_decode () ?chunks)
      = [JStr ''search'', JStr ''index'']"
    by code_simp
  note inst = C8_tool_names_eager [where st = tau_init and parse = json_parse and decode = ascii_decode
      and ?d0.0 = "()" and ?t0.0 = 0 and ?t1.0 = 1 and resp = "ok_response ?chunks" and chunks = ?chunks]
  from inst [where ev = ?named and n = "JStr ''search''"] h1
  have one: "on_event_tau tau_init ?named
      = Completed (tau_init\<lparr>toolsUsed := toolsUsed tau_init @ [JStr ''search'']\<rparr>)"
    by blast
  from inst [where ev = ?unnamed] h2
  have two: "on_event_tau tau_init ?unnamed = Completed tau_init"
    by blast
  from inst [where ev = ?closing] h3
  have three: "toolsUsed (state_of (on_event_tau tau_init ?closing)) = toolsUsed tau_init"
    by blast
  from inst [where ev = ?named] resp
  have "map_sum id toolsUsed_of (callOasisAgent_tau json_parse ascii_decode () 0 1 (ok_response ?chunks))
      = Inr (List.map_filter tool_name (stream_events json_parse ascii_decode () ?chunks))"
    by blast
  then have four: "map_sum id toolsUsed_of
      (callOasisAgent_tau json_parse ascii_decode () 0 1 (ok_response ?chunks))
      = Inr [JStr ''search'', JStr ''index'']"
    by (simp only: names)
  show ?thesis
    using h1(1) one two three four by blast
qed

text \<open>
  C9. \<^verbatim>\<open>TEXT_MESSAGE_START\<close> events are no-ops: each leaves the accumulators unchanged
  and removing them all from a sequence does not change the result. No flag records
  an open span: from any accumulators, a content event with a non-empty string delta
  appends the delta to the current message, and an end with an empty current message
  changes nothing.
\<close>

theorem C9_no_span_flag:
  "(has_type ''TEXT_MESSAGE_START'' ev \<longrightarrow>
      on_event_tau st ev = Completed st \<and> on_event_mt st' ev = Completed st')
   \<and> run_events on_event_tau st (filter (\<lambda>e. \<not> has_type ''TEXT_MESSAGE_START'' e) evs) =
       run_events on_event_tau st evs
   \<and> run_events on_event_mt st' (filter (\<lambda>e. \<not> has_type ''TEXT_MESSAGE_START'' e) evs) =
       run_events on_event_mt st' evs
   \<and> (is_content ev \<and> member ev ''delta'' = Some (JStr d) \<and> d \<noteq> [] \<longrightarrow>
      on_event_tau st ev = Completed (st\<lparr>currentMessage := currentMessage st @ d\<rparr>)
      \<and> on_event_mt st' ev = Completed (st'\<lparr>currentMessage := currentMessage st' @ d\<rparr>))
   \<and> (is_end ev \<and> currentMessage st = [] \<longrightarrow> on_event_tau st ev = Completed st)
   \<and> (is_end ev \<and> currentMessage st' = [] \<longrightarrow> on_event_mt st' ev = Completed st')"
proof -
  have start: "on_event_tau s ev' = Completed s \<and> on_event_mt s' ev' = Completed s'"
    if "has_type ''TEXT_MESSAGE_START'' ev'" for s s' ev'
  proof -
    from that have "ev' \<noteq> JNull" "\<not> is_content ev'" "\<not> is_end ev'" "\<not> is_tool_start ev'"
      by (auto simp: has_type_def is_content_def is_end_def is_tool_start_def)
    then show ?thesis
      by (simp add: on_event_tau_def on_event_mt_def track_tool_unrecognized
            collect_text_unrecognized)
  qed
  have drop_tau: "run_events on_event_tau st (filter (\<lambda>e. \<not> has_type ''TEXT_MESSAGE_START'' e) evs) =
       run_events on_event_tau st evs"
    by (rule run_events_filter) (simp add: start)
  have drop_mt: "run_events on_event_mt st' (filter (\<lambda>e. \<not> has_type ''TEXT_MESSAGE_START'' e) evs) =
       run_events on_event_mt st' evs"
    by (rule run_events_filter) (simp add: start)
  have content: "on_event_tau st ev = Completed (st\<lparr>currentMessage := currentMessage st @ d\<rparr>)
      \<and> on_event_mt st' ev = Completed (st'\<lparr>currentMessage := currentMessage st' @ d\<rparr>)"
    if "is_content ev" "member ev ''delta'' = Some (JStr d)" "d \<noteq> []"
  proof -
    from that(1) have "ev \<noteq> JNull" "\<not> is_tool_start ev"
      by (auto simp: has_type_def is_content_def is_tool_start_def)
    with that show ?thesis
      by (simp add: on_event_tau_def on_event_mt_def track_tool_unrecognized collect_text_def
            get_prop_def is_content_def has_type_def truthy_opt_def)
  qed
  have closing: "on_event_tau s ev = Completed s" if "is_end ev" "currentMessage s = []" for s
  proof -
    from that(1) have "ev \<noteq> JNull" "\<not> is_tool_start ev"
      by (auto simp: has_type_def is_end_def is_tool_start_def)
    with that show ?thesis
      by (simp add: on_event_tau_def track_tool_unrecognized collect_text_def get_prop_def
            is_end_def has_type_def)
  qed
  have closing': "on_event_mt s ev = Completed s" if "is_end ev" "currentMessage s = []" for s
  proof -
    from that(1) have "ev \<noteq> JNull"
      by (auto simp: has_type_def is_end_def)
    with that show ?thesis
      by (simp add: on_event_mt_def collect_text_def get_prop_def is_end_def has_type_def)
  qed
  show ?thesis
    using start drop_tau drop_mt content closing closing' by blast
qed

theorem C9_no_span_flag_witness:
  "has_type ''TEXT_MESSAGE_START'' (JObj [(''type'', JStr ''TEXT_MESSAGE_START'')])
   \<and> on_event_tau tau_init (JObj [(''type'', JStr ''TEXT_MESSAGE_START'')]) = Completed tau_init
   \<and> is_content (JObj [(''type'', JStr ''TEXT_MESSAGE_CONTENT''), (''delta'', JStr ''Hi'')])
   \<and> on_event_tau tau_init (JObj [(''type'', JStr ''TEXT_MESSAGE_CONTENT''), (''delta'', JStr ''Hi'')])
      = Completed (tau_init\<lparr>currentMessage := currentMessage tau_init @ ''Hi''\<rparr>)
   \<and> on_event_mt mt_init (JObj [(''type'', JStr ''TEXT_MESSAGE_CONTENT''), (''delta'', JStr ''Hi'')])
      = Completed (mt_init\<lparr>currentMessage := currentMessage mt_init @ ''Hi''\<rparr>)
   \<and> is_end (JObj [(''type'', JStr ''TEXT_MESSAGE_END'')])
   \<and> currentMessage tau_init = []
   \<and> on_event_tau tau_init (JObj [(''type'', JStr ''TEXT_MESSAGE_END'')]) = Completed tau_init
   \<and> on_event_mt mt_init (JObj [(''type'', JStr ''TEXT_MESSAGE_END'')]) = Completed mt_init"
proof -
  let ?s = "JObj [(''type'', JStr ''TEXT_MESSAGE_START'')]"
  let ?c = "JObj [(''type'', JStr ''TEXT_MESSAGE_CONTENT''), (''delta'', JStr ''Hi'')]"
  let ?e = "JObj [(''type'', JStr ''TEXT_MESSAGE_END'')]"
  have h1: "has_type ''TEXT_MESSAGE_START'' ?s"
    by code_simp
  have h2: "is_content ?c" "member ?c ''delta'' = Some (JStr ''Hi'')" "''Hi'' \<noteq> []"
    by code_simp+
  have h3: "is_end ?e" "currentMessage tau_init = []" "currentMessage mt_init = []"
    by code_simp+
  note inst = C9_no_span_flag [where st = tau_init and st' = mt_init]
  from inst [where ev = ?s] h1
  have one: "on_event_tau tau_init ?s = Completed tau_init"
    by blast
  from inst [where ev = ?c and d = "''Hi''"] h2
  have two: "on_event_tau tau_init ?c = Completed (tau_init\<lparr>currentMessage := currentMessage tau_init @ ''Hi''\<rparr>)
      \<and> on_event_mt mt_init ?c = Completed (mt_init\<lparr>currentMessage := currentMessage mt_init @ ''Hi''\<rparr>)"
    by blast
  from inst [where ev = ?e] h3
  have three: "on_event_tau tau_init ?e = Completed tau_init \<and> on_event_mt mt_init ?e = Completed mt_init"
    by blast
  show ?thesis
    using h1 h2(1) h3(1,2) one two three by blast
qed

text \<open>
  C10. The response of the MT-Bench call is the accumulated message content with white
  space trimmed at both ends, and \<^verbatim>\<open>No response received\<close> when nothing is left. With
  string deltas the content is the concatenation of all deltas. When no content event
  arrived, or when the content is white space alone, the response is the sentinel;
  when the content is a text that neither starts nor ends with white space, wrapped
  in white space, the response is that text, inner white space kept. A response is
  never empty and never starts or ends with white space. A reply whose text is
  \<^verbatim>\<open>No response received\<close> and an empty reply return the same string. (White space
  is written out: the code units 9 to 13, 32 and 160, those of \<^verbatim>\<open>trim\<close> below 256.)
\<close>

theorem C10_trim_or_sentinel:
  "(ok resp \<and> body resp = Some (map Value chunks) \<and>
      list_all (\<lambda>e. \<not> is_content e) (stream_events parse decode d0 chunks) \<longrightarrow>
      response_of (callOasisAgent_mt parse decode d0 t0 t1 resp) = Inr ''No response received'')
   \<and> (ok resp \<and> body resp = Some (map Value chunks) \<and>
      list_all string_delta (stream_events parse decode d0 chunks) \<and>
      list_all (\<lambda>c. c \<in> {CHR 0x09, CHR 0x0A, CHR 0x0B, CHR 0x0C, CHR 0x0D, CHR 0x20, CHR 0xA0})
        (deltas (stream_events parse decode d0 chunks)) \<longrightarrow>
      response_of (callOasisAgent_mt parse decode d0 t0 t1 resp) = Inr ''No response received'')
   \<and> (ok resp \<and> body resp = Some (map Value chunks) \<and>
      list_all string_delta (stream_events parse decode d0 chunks) \<and>
      deltas (stream_events parse decode d0 chunks) = pre @ t @ post \<and>
      list_all (\<lambda>c. c \<in> {CHR 0x09, CHR 0x0A, CHR 0x0B, CHR 0x0C, CHR 0x0D, CHR 0x20, CHR 0xA0}) pre \<and>
      list_all (\<lambda>c. c \<in> {CHR 0x09, CHR 0x0A, CHR 0x0B, CHR 0x0C, CHR 0x0D, CHR 0x20, CHR 0xA0}) post \<and>
      t \<noteq> [] \<and>
      hd t \<notin> {CHR 0x09, CHR 0x0A, CHR 0x0B, CHR 0x0C, CHR 0x0D, CHR 0x20, CHR 0xA0} \<and>
      last t \<notin> {CHR 0x09, CHR 0x0A, CHR 0x0B, CHR 0x0C, CHR 0x0D, CHR 0x20, CHR 0xA0} \<longrightarrow>
      response_of (callOasisAgent_mt parse decode d0 t0 t1 resp) = Inr t)
   \<and> (response_of (callOasisAgent_mt parse decode d0 t0 t1 resp) = Inr r \<longrightarrow>
      r \<noteq> [] \<and>
      hd r \<notin> {CHR 0x09, CHR 0x0A, CHR 0x0B, CHR 0x0C, CHR 0x0D, CHR 0x20, CHR 0xA0} \<and>
      last r \<notin> {CHR 0x09, CHR 0x0A, CHR 0x0B, CHR 0x0C, CHR 0x0D, CHR 0x20, CHR 0xA0})
   \<and> (ok resp \<and> body resp = Some (map Value chunks) \<and>
      list_all string_delta (stream_events parse decode d0 chunks) \<and>
      ok resp' \<and> body resp' = Some (map Value chunks') \<and>
      list_all string_delta (stream_events parse decode d0 chunks') \<and>
      deltas (stream_events parse decode d0 chunks) = ''No response received'' \<and>
      deltas (stream_events parse decode d0 chunks') = [] \<longrightarrow>
      response_of (callOasisAgent_mt parse decode d0 t0 t1 resp) =
        response_of (callOasisAgent_mt parse decode d0 t0 t1 resp'))
   \<and> (ok resp \<and> body resp = Some (map Value chunks) \<and>
      list_all string_delta (stream_events parse decode d0 chunks) \<longrightarrow>
      response_of (callOasisAgent_mt parse decode d0 t0 t1 resp) =
        Inr (if js_trim (deltas (stream_events parse decode d0 chunks)) = []
             then ''No response received''
             else js_trim (deltas (stream_events parse decode d0 chunks))))"
proof -
  let ?sentinel = "''No response received''"
  have typed: "response_of (callOasisAgent_mt parse decode d0 t0 t1 r) =
        Inr (if js_trim (deltas (stream_events parse decode d0 cs)) = [] then ?sentinel
             else js_trim (deltas (stream_events parse decode d0 cs)))"
    if r: "ok r" "body r = Some (map Value cs)"
      and t: "list_all string_delta (stream_events parse decode d0 cs)" for r cs
  proof -
    have "deltas (upto_last_end (stream_events parse decode d0 cs))
        @ deltas (after_last_end (stream_events parse decode d0 cs))
        = deltas (stream_events parse decode d0 cs)"
      by (simp add: upto_after_last_end flip: deltas_append)
    then show ?thesis
      using mt_text [OF t] r by (simp add: call_mt_ok response_of_def finish_mt_text)
  qed
  have silent: "response_of (callOasisAgent_mt parse decode d0 t0 t1 resp) = Inr ?sentinel"
    if "ok resp" "body resp = Some (map Value chunks)"
      "list_all (\<lambda>e. \<not> is_content e) (stream_events parse decode d0 chunks)"
    using that mt_no_content [of "stream_events parse decode d0 chunks" mt_init]
    by (simp add: call_mt_ok response_of_def finish_mt_text mt_init_def js_trim_def)
  have blank: "response_of (callOasisAgent_mt parse decode d0 t0 t1 resp) = Inr ?sentinel"
    if r: "ok resp" "body resp = Some (map Value chunks)"
      and t: "list_all string_delta (stream_events parse decode d0 chunks)"
      and ws: "list_all (\<lambda>c. c \<in> {CHR 0x09, CHR 0x0A, CHR 0x0B, CHR 0x0C, CHR 0x0D, CHR 0x20, CHR 0xA0})
        (deltas (stream_events parse decode d0 chunks))"
  proof -
    from ws have "list_all js_space (deltas (stream_events parse decode d0 chunks))"
      by (simp add: js_space_fun)
    then have "js_trim (deltas (stream_events parse decode d0 chunks)) = []"
      by (rule js_trim_all_space)
    then show ?thesis
      using typed [OF r t] by simp
  qed
  have core: "response_of (callOasisAgent_mt parse decode d0 t0 t1 resp) = Inr t"
    if r: "ok resp" "body resp = Some (map Value chunks)"
      and ty: "list_all string_delta (stream_events parse decode d0 chunks)"
      and eq: "deltas (stream_events parse decode d0 chunks) = pre @ t @ post"
      and pre: "list_all (\<lambda>c. c \<in> {CHR 0x09, CHR 0x0A, CHR 0x0B, CHR 0x0C, CHR 0x0D, CHR 0x20, CHR 0xA0}) pre"
      and post: "list_all (\<lambda>c. c \<in> {CHR 0x09, CHR 0x0A, CHR 0x0B, CHR 0x0C, CHR 0x0D, CHR 0x20, CHR 0xA0}) post"
      and t: "t \<noteq> []"
        "hd t \<notin> {CHR 0x09, CHR 0x0A, CHR 0x0B, CHR 0x0C, CHR 0x0D, CHR 0x20, CHR 0xA0}"
        "last t \<notin> {CHR 0x09, CHR 0x0A, CHR 0x0B, CHR 0x0C, CHR 0x0D, CHR 0x20, CHR 0xA0}"
  proof -
    have "js_trim (pre @ t @ post) = t"
      using pre post t by (intro js_trim_core) (simp_all add: js_space_fun)
    then show ?thesis
      using typed [OF r ty] eq t(1) by simp
  qed
  have ends: "r \<noteq> [] \<and>
      hd r \<notin> {CHR 0x09, CHR 0x0A, CHR 0x0B, CHR 0x0C, CHR 0x0D, CHR 0x20, CHR 0xA0} \<and>
      last r \<notin> {CHR 0x09, CHR 0x0A, CHR 0x0B, CHR 0x0C, CHR 0x0D, CHR 0x20, CHR 0xA0}"
    if "response_of (callOasisAgent_mt parse decode d0 t0 t1 resp) = Inr r"
  proof -
    from call_mt_result [OF that] obtain st where "r = finish_mt st" ..
    then show ?thesis
      using finish_mt_ends [of st] by (simp add: js_space_set)
  qed
  have same: "response_of (callOasisAgent_mt parse decode d0 t0 t1 resp) =
        response_of (callOasisAgent_mt parse decode d0 t0 t1 resp')"
    if r: "ok resp" "body resp = Some (map Value chunks)"
      and ty: "list_all string_delta (stream_events parse decode d0 chunks)"
      and r': "ok resp'" "body resp' = Some (map Value chunks')"
      and ty': "list_all string_delta (stream_events parse decode d0 chunks')"
      and said: "deltas (stream_events parse decode d0 chunks) = ?sentinel"
      and quiet: "deltas (stream_events parse decode d0 chunks') = []"
  proof -
    have "js_trim ?sentinel = ?sentinel"
      using js_trim_core [of "[]" "[]" ?sentinel] by (simp add: js_space_def)
    moreover have "js_trim [] = []"
      by (simp add: js_trim_def)
    ultimately show ?thesis
      using typed [OF r ty] typed [OF r' ty'] said quiet by simp
  qed
  show ?thesis
    using silent blank core ends same typed [of resp chunks] by blast
qed

theorem C10_trim_or_sentinel_witness:
  "list_all string_delta (stream_events json_parse ascii_decode ()
      [sse_line (content_event ''  Hi there '') @ sse_line end_event])
   \<and> deltas (stream_events json_parse ascii_decode ()
      [sse_line (content_event ''  Hi there '') @ sse_line end_event]) = ''  '' @ ''Hi there'' @ '' ''
   \<and> response_of (callOasisAgent_mt json_parse ascii_decode () 0 1
        (ok_response [sse_line (content_event ''  Hi there '') @ sse_line end_event]))
      = Inr ''Hi there''
   \<and> response_of (callOasisAgent_mt json_parse ascii_decode () 0 1
        (ok_response [sse_line (content_event ''   '')]))
      = Inr ''No response received''
   \<and> list_all (\<lambda>e. \<not> is_content e) (stream_events json_parse ascii_decode () [sse_line end_event])
   \<and> response_of (callOasisAgent_mt json_parse ascii_decode () 0 1 (ok_response [sse_line end_event]))
      = Inr ''No response received''
   \<and> response_of (callOasisAgent_mt json_parse ascii_decode () 0 1
        (ok_response [sse_line (content_event ''No response received'') @ sse_line end_event]))
      = response_of (callOasisAgent_mt json_parse ascii_decode () 0 1 (ok_response [sse_line end_event]))"
proof -
  let ?padded = "[sse_line (content_event ''  Hi there '') @ sse_line end_event]"
  let ?blank = "[sse_line (content_event ''   '')]"
  let ?said = "[sse_line (content_event ''No response received'') @ sse_line end_event]"
  let ?silent = "[sse_line end_event]"
  have typed: "list_all string_delta (stream_events json_parse ascii_decode () ?padded)"
    "list_all string_delta (stream_events json_parse ascii_decode () ?blank)"
    "list_all string_delta (stream_events json_parse ascii_decode () ?said)"
    "list_all string_delta (stream_events json_parse ascii_decode () ?silent)"
    by code_simp+
  have parts: "deltas (stream_events json_parse ascii_decode () ?padded) = ''  '' @ ''Hi there'' @ '' ''"
    by code_simp
  have spaces: "list_all (\<lambda>c. c \<in> {CHR 0x09, CHR 0x0A, CHR 0x0B, CHR 0x0C, CHR 0x0D, CHR 0x20, CHR 0xA0}) ''  ''"
    "list_all (\<lambda>c. c \<in> {CHR 0x09, CHR 0x0A, CHR 0x0B, CHR 0x0C, CHR 0x0D, CHR 0x20, CHR 0xA0}) '' ''"
    "''Hi there'' \<noteq> []"
    "hd ''Hi there'' \<notin> {CHR 0x09, CHR 0x0A, CHR 0x0B, CHR 0x0C, CHR 0x0D, CHR 0x20, CHR 0xA0}"
    "last ''Hi there'' \<notin> {CHR 0x09, CHR 0x0A, CHR 0x0B, CHR 0x0C, CHR 0x0D, CHR 0x20, CHR 0xA0}"
    by simp_all
  have all_blank: "list_all (\<lambda>c. c \<in> {CHR 0x09, CHR 0x0A, CHR 0x0B, CHR 0x0C, CHR 0x0D, CHR 0x20, CHR 0xA0})
      (deltas (stream_events json_parse ascii_decode () ?blank))"
    by code_simp
  have quiet: "list_all (\<lambda>e. \<not> is_content e) (stream_events json_parse ascii_decode () ?silent)"
    by code_simp
  have texts: "deltas (stream_events json_parse ascii_decode () ?said) = ''No response received''"
    "deltas (stream_events json_parse ascii_decode () ?silent) = []"
    by code_simp+
  have resp: "ok (ok_response ?padded)" "body (ok_response ?padded) = Some (map Value ?padded)"
    "ok (ok_response ?blank)" "body (ok_response ?blank) = Some (map Value ?blank)"
    "ok (ok_response ?said)" "body (ok_response ?said) = Some (map Value ?said)"
    "ok (ok_response ?silent)" "body (ok_response ?silent) = Some (map Value ?silent)"
    by (simp_all add: ok_response_def)
  note inst = C10_trim_or_sentinel [where parse = json_parse and decode = ascii_decode
      and ?d0.0 = "()" and ?t0.0 = 0 and ?t1.0 = 1]
  from inst [where resp = "ok_response ?padded" and chunks = ?padded and pre = "''  ''"
      and t = "''Hi there''" and post = "'' ''"] typed(1) parts spaces resp(1,2)
  have one: "response_of (callOasisAgent_mt json_parse ascii_decode () 0 1 (ok_response ?padded))
      = Inr ''Hi there''"
    by blast
  from inst [where resp = "ok_response ?blank" and chunks = ?blank] typed(2) all_blank resp(3,4)
  have two: "response_of (callOasisAgent_mt json_parse ascii_decode () 0 1 (ok_response ?blank))
      = Inr ''No response received''"
    by blast
  from inst [where resp = "ok_response ?silent" and chunks = ?silent] quiet resp(7,8)
  have three: "response_of (callOasisAgent_mt json_parse ascii_decode () 0 1 (ok_response ?silent))
      = Inr ''No response received''"
    by blast
  from inst [where resp = "ok_response ?said" and chunks = ?said
      and resp' = "ok_response ?silent" and chunks' = ?silent] typed(3,4) texts resp(5-8)
  have four: "response_of (callOasisAgent_mt json_parse ascii_decode () 0 1 (ok_response ?said))
      = response_of (callOasisAgent_mt json_parse ascii_decode () 0 1 (ok_response ?silent))"
    by blast
  show ?thesis
    using typed(1) parts one two quiet three four by blast
qed

end
